theory Spec2Isabelle
  imports Complex_Main "HOL-Library.AList"
begin

section \<open>JSON values as the handlers see them\<close>

text \<open>
  The route handlers of \<^verbatim>\<open>backend/src/routes/rank.js\<close> move JSON between the client,
  the scoring engine and the session collection. A JSON object is the list of its
  members in the order they were written; reading a property takes the last member with
  that name, as \<^verbatim>\<open>JSON.parse\<close> does. Numbers are only copied, never computed with, so
  they are reals.
\<close>

datatype json =
    JNull
  | JBool bool
  | JNum real
  | JStr string
  | JArr "json list"
  | JObj "(string \<times> json) list"

type_synonym obj = "(string \<times> json) list"

definition get_prop :: "obj \<Rightarrow> string \<Rightarrow> json option" where
  "get_prop kvs k = map_of (rev kvs) k"

text \<open>JavaScript truthiness of a JSON value (\<^verbatim>\<open>!x\<close>, \<^verbatim>\<open>x || y\<close>, \<^verbatim>\<open>x ? a : b\<close>).\<close>

fun truthy :: "json \<Rightarrow> bool" where
  "truthy JNull = False"
| "truthy (JBool b) = b"
| "truthy (JNum x) = (x \<noteq> 0)"
| "truthy (JStr s) = (s \<noteq> [])"
| "truthy (JArr xs) = True"
| "truthy (JObj kvs) = True"

text \<open>Truthiness of a form field that is either missing or a string.\<close>

fun present :: "string option \<Rightarrow> bool" where
  "present None = False"
| "present (Some s) = (s \<noteq> [])"

text \<open>The decimal text of an array index, the property name of an array element.\<close>

function index_key :: "nat \<Rightarrow> string" where
  "index_key n =
     (if n < 10 then [''0123456789'' ! n]
      else index_key (n div 10) @ [''0123456789'' ! (n mod 10)])"
  by pat_completeness auto
termination
  by (relation "measure id") auto

declare index_key.simps [simp del]

text \<open>
  The own enumerable properties that an object spread \<^verbatim>\<open>{...v}\<close> or a rest pattern
  \<^verbatim>\<open>{a, ...rest}\<close> copies out of a value: the members of an object, the indexed
  elements of an array, the indexed characters of a string, nothing for a number or a
  boolean.
\<close>

definition own_props :: "json \<Rightarrow> obj" where
  "own_props v =
     (case v of
        JObj kvs \<Rightarrow> kvs
      | JArr xs \<Rightarrow> zip (map index_key [0..<length xs]) xs
      | JStr s \<Rightarrow> zip (map index_key [0..<length s]) (map (\<lambda>c. JStr [c]) s)
      | _ \<Rightarrow> [])"

text \<open>\<^verbatim>\<open>{ ...base, ...extra }\<close>: each property of \<open>extra\<close> in turn overwrites or extends.\<close>

definition spread :: "obj \<Rightarrow> obj \<Rightarrow> obj" where
  "spread base extra = fold (\<lambda>(k, v). AList.update k v) extra base"

section \<open>Errors and responses\<close>

text \<open>
  \<open>Thrown m st\<close> is an \<^verbatim>\<open>Error\<close> object made by the handlers themselves, with its
  message and its optional \<^verbatim>\<open>status\<close> property. The other constructors are exceptions
  raised by the runtime and the libraries (a \<^verbatim>\<open>TypeError\<close>, the rejection of
  \<^verbatim>\<open>fetch\<close>, Mongoose's cast and validation errors, a failure of the database); they
  carry no \<^verbatim>\<open>status\<close> property and their message text is the library's.
\<close>

datatype error =
    Thrown string "nat option"
  | TypeError
  | SyntaxError
  | FetchError
  | InvalidJson
  | CastError
  | ValidationError
  | DuplicateKey
  | StorageError

datatype ObjectId = ObjectId (hex: string)

record weights =
  semantic :: "real option"
  skill :: "real option"
  experience :: "real option"
  education :: "real option"

record session =
  sid :: ObjectId
  owner :: ObjectId
  jobDescription :: string
  rankings :: "obj list"
  weights :: weights
  createdAt :: nat
  updatedAt :: nat

record summary =
  sum_id :: ObjectId
  sum_jobDescription :: string
  sum_rankings :: "obj list"
  sum_createdAt :: nat

datatype body =
    ErrorMsg string
  | RuntimeMsg error
  | Envelope json
  | Document session
  | Summaries "summary list"

text \<open>
  A handler either sends a response (\<^verbatim>\<open>res.status(st).json(b)\<close>, status 200 when not
  set) or hands an error to \<^verbatim>\<open>next(err)\<close>.
\<close>

datatype outcome = Res nat body | Next error

text \<open>
  The application's error middleware:
  \<^verbatim>\<open>res.status(err.status || 500).json({ error: err.message || "Internal server error" })\<close>.
\<close>

fun errorHandler :: "error \<Rightarrow> outcome" where
  "errorHandler (Thrown m st) =
     Res (case st of None \<Rightarrow> 500 | Some s \<Rightarrow> if s = 0 then 500 else s)
         (ErrorMsg (if m = [] then ''Internal server error'' else m))"
| "errorHandler e = Res 500 (RuntimeMsg e)"

text \<open>What the client finally receives.\<close>

fun delivered :: "outcome \<Rightarrow> outcome" where
  "delivered (Res st b) = Res st b"
| "delivered (Next e) = errorHandler e"

section \<open>The request's surroundings\<close>

text \<open>
  The multipart form sent to the scoring engine: the job description, the weights text
  when one was given, and each stored temporary file with its original name
  (\<^verbatim>\<open>POST /rank\<close>); or the job description and \<^verbatim>\<open>top_k\<close> (\<^verbatim>\<open>POST /rank/stored\<close>),
  the latter kept as the number whose text \<^verbatim>\<open>String(top_k)\<close> is sent.
\<close>

datatype ml_request =
    RankUpload string "string option" "(string \<times> string) list"
  | RankStored string real

text \<open>
  The engine's HTTP response as the handlers read it: \<^verbatim>\<open>mlRes.status\<close>,
  \<^verbatim>\<open>mlRes.text()\<close>, and \<^verbatim>\<open>mlRes.json()\<close>, which is \<open>None\<close> when the body does not
  decode. \<^verbatim>\<open>mlRes.ok\<close> is a status in the range 200 to 299.
\<close>

record ml_response =
  res_status :: nat
  res_text :: string
  res_json :: "json option"

definition ok :: "ml_response \<Rightarrow> bool" where
  "ok r = (200 \<le> res_status r \<and> res_status r \<le> 299)"

text \<open>
  Everything outside the repository that a request meets is a field of \<open>env\<close>, so that
  each theorem holds for every behaviour of it except where a hypothesis says otherwise:
  \<^item> \<open>fetch\<close>: the engine's answer to a form, \<open>None\<close> when the connection fails;
  \<^item> \<open>JSON_parse\<close>: \<^verbatim>\<open>JSON.parse\<close>, \<open>None\<close> when it throws a \<^verbatim>\<open>SyntaxError\<close>;
  \<^item> \<open>castObjectId\<close>: Mongoose's cast of a string to an ObjectId, \<open>None\<close> when the
    string is malformed;
  \<^item> \<open>castNumber\<close>: the cast of a value to a \<^verbatim>\<open>Number\<close> path, \<open>None\<close> when it fails,
    \<open>Some None\<close> for a stored \<^verbatim>\<open>null\<close>;
  \<^item> \<open>setNested\<close>: what Mongoose makes of a value that is not a plain object given for
    the nested path \<^verbatim>\<open>weights\<close>;
  \<^item> \<open>castRankings\<close>: the cast of the ranking items to the item schema;
  \<^item> \<open>db_down\<close>: whether the database fails the operation;
  \<^item> \<open>unlink_fails\<close>: the paths on which \<^verbatim>\<open>fs.unlink\<close> reports an error;
  \<^item> \<open>new_id\<close>, \<open>now\<close>: the identifier and the timestamp given to a new document.
\<close>

record env =
  fetch :: "ml_request \<Rightarrow> ml_response option"
  JSON_parse :: "string \<Rightarrow> json option"
  castObjectId :: "string \<Rightarrow> ObjectId option"
  castNumber :: "json \<Rightarrow> real option option"
  setNested :: "json \<Rightarrow> weights option"
  castRankings :: "json list \<Rightarrow> obj list option"
  db_down :: bool
  unlink_fails :: "string \<Rightarrow> bool"
  new_id :: ObjectId
  now :: nat

text \<open>
  The state the handlers change: the documents of the \<^verbatim>\<open>RankResult\<close> collection in
  insertion order, the paths present in the temporary directory, and the forms sent to
  the engine so far.
\<close>

record world =
  sessions :: "session list"
  tmp_files :: "string set"
  ml_calls :: "ml_request list"

record tmp_file =
  path :: string
  originalname :: string

text \<open>
  The upload request after the \<^verbatim>\<open>protect\<close> and multer middlewares: the text fields
  \<^verbatim>\<open>jd\<close> and \<^verbatim>\<open>weights\<close> of the multipart body, each possibly missing, and the files
  multer stored (\<^verbatim>\<open>req.files || []\<close>). The body of the stored request carries \<^verbatim>\<open>jd\<close>
  and \<^verbatim>\<open>top_k\<close>, a string and a number as the route documents them. The owner is
  \<^verbatim>\<open>req.user.id\<close>, an identifier the token was signed with. Multer's own limits (20
  files, 10 MB each, PDF only) act before the handler and are not part of it.
\<close>

record upload_req =
  up_jd :: "string option"
  up_weights :: "string option"
  up_files :: "tmp_file list"

record stored_req =
  st_jd :: "string option"
  st_top_k :: "real option"

section \<open>The session schema\<close>

text \<open>The defaults of \<^verbatim>\<open>rankResultSchema.weights\<close>.\<close>

definition default_weights :: weights where
  "default_weights =
     \<lparr>semantic = Some 0.5, skill = Some 0.25, experience = Some 0.15, education = Some 0.1\<rparr>"

text \<open>
  One path of the nested \<^verbatim>\<open>weights\<close>: the default when the given object has no such
  member, the cast of the member otherwise.
\<close>

definition weight_path :: "env \<Rightarrow> obj \<Rightarrow> string \<Rightarrow> real option \<Rightarrow> real option option" where
  "weight_path E kvs name dflt =
     (case get_prop kvs name of None \<Rightarrow> Some dflt | Some v \<Rightarrow> castNumber E v)"

definition weights_of :: "env \<Rightarrow> json option \<Rightarrow> weights option" where
  "weights_of E given =
     (case given of
        None \<Rightarrow> Some default_weights
      | Some (JObj kvs) \<Rightarrow>
          (case weight_path E kvs ''semantic'' (semantic default_weights) of
             None \<Rightarrow> None
           | Some a \<Rightarrow>
          (case weight_path E kvs ''skill'' (skill default_weights) of
             None \<Rightarrow> None
           | Some b \<Rightarrow>
          (case weight_path E kvs ''experience'' (experience default_weights) of
             None \<Rightarrow> None
           | Some c \<Rightarrow>
          (case weight_path E kvs ''education'' (education default_weights) of
             None \<Rightarrow> None
           | Some d \<Rightarrow>
               Some \<lparr>semantic = a, skill = b, experience = c, education = d\<rparr>))))
      | Some v \<Rightarrow> setNested E v)"

text \<open>
  \<^verbatim>\<open>RankResult.create({ owner, jobDescription, rankings, weights })\<close>: the document is
  built from the schema (required job description, cast items, weights with their
  defaults, the two timestamps), then inserted; the collection refuses a second document
  with the same \<^verbatim>\<open>_id\<close>.
\<close>

definition RankResult_create ::
  "env \<Rightarrow> ObjectId \<Rightarrow> string \<Rightarrow> json list \<Rightarrow> json option \<Rightarrow> session list
     \<Rightarrow> error + (session \<times> session list)" where
  "RankResult_create E uid jd items given docs =
     (if jd = [] then Inl ValidationError
      else case castRankings E items of
        None \<Rightarrow> Inl ValidationError
      | Some rs \<Rightarrow>
     (case weights_of E given of
        None \<Rightarrow> Inl ValidationError
      | Some ws \<Rightarrow>
          if db_down E then Inl StorageError
          else if new_id E \<in> sid ` set docs then Inl DuplicateKey
          else
            (let saved = \<lparr>sid = new_id E, owner = uid, jobDescription = jd, rankings = rs,
                           weights = ws, createdAt = now E, updatedAt = now E\<rparr>
             in Inr (saved, docs @ [saved]))))"

text \<open>
  \<^verbatim>\<open>RankResult.findOne({ _id: ident, owner: uid })\<close>: the query is cast first, then run.
\<close>

definition RankResult_findOne ::
  "env \<Rightarrow> string \<Rightarrow> ObjectId \<Rightarrow> session list \<Rightarrow> error + session option" where
  "RankResult_findOne E ident uid docs =
     (case castObjectId E ident of
        None \<Rightarrow> Inl CastError
      | Some i \<Rightarrow>
          if db_down E then Inl StorageError
          else Inr (find (\<lambda>s. sid s = i \<and> owner s = uid) docs))"

text \<open>
  The projection \<^verbatim>\<open>"jobDescription rankings.rank rankings.filename rankings.total_score
  rankings.fit_category createdAt"\<close>: the listed paths and the document's \<^verbatim>\<open>_id\<close>.
\<close>

definition selected_item_fields :: "string list" where
  "selected_item_fields = [''rank'', ''filename'', ''total_score'', ''fit_category'']"

definition select_item :: "obj \<Rightarrow> obj" where
  "select_item item = filter (\<lambda>(k, v). k \<in> set selected_item_fields) item"

definition select_summary :: "session \<Rightarrow> summary" where
  "select_summary s =
     \<lparr>sum_id = sid s, sum_jobDescription = jobDescription s,
      sum_rankings = map select_item (rankings s), sum_createdAt = createdAt s\<rparr>"

text \<open>
  \<^verbatim>\<open>RankResult.find({ owner: uid }).select(...).sort({ createdAt: -1 }).limit(50)\<close>.
  Documents with equal creation times come in an order the database does not promise;
  here it is the reverse of their insertion order.
\<close>

definition RankResult_find :: "env \<Rightarrow> ObjectId \<Rightarrow> session list \<Rightarrow> error + summary list" where
  "RankResult_find E uid docs =
     (if db_down E then Inl StorageError
      else Inr (map select_summary
                  (take 50 (rev (sort_key createdAt (filter (\<lambda>s. owner s = uid) docs))))))"

section \<open>The handlers of the ranking routes\<close>

text \<open>\<^verbatim>\<open>files.forEach((f) => fs.unlink(f.path, () => {}))\<close>: the callback ignores the error.\<close>

definition unlink :: "env \<Rightarrow> string \<Rightarrow> string set \<Rightarrow> string set" where
  "unlink E p disk = (if unlink_fails E p then disk else disk - {p})"

definition unlink_all :: "env \<Rightarrow> tmp_file list \<Rightarrow> world \<Rightarrow> world" where
  "unlink_all E fs w = w\<lparr>tmp_files := fold (\<lambda>f. unlink E (path f)) fs (tmp_files w)\<rparr>"

text \<open>The arrow function \<^verbatim>\<open>({ resume: _r, ...rest }) => rest\<close>; destructuring \<^verbatim>\<open>null\<close> throws.\<close>

definition strip_resume :: "json \<Rightarrow> error + json" where
  "strip_resume v =
     (case v of
        JNull \<Rightarrow> Inl TypeError
      | _ \<Rightarrow> Inr (JObj (AList.delete ''resume'' (own_props v))))"

text \<open>\<^verbatim>\<open>xs.map(f)\<close> for a callback that may throw: the first exception ends the loop.\<close>

fun map_throwing :: "('a \<Rightarrow> error + 'b) \<Rightarrow> 'a list \<Rightarrow> error + 'b list" where
  "map_throwing f [] = Inr []"
| "map_throwing f (x # xs) =
     (case f x of
        Inl e \<Rightarrow> Inl e
      | Inr y \<Rightarrow> (case map_throwing f xs of Inl e \<Rightarrow> Inl e | Inr ys \<Rightarrow> Inr (y # ys)))"

text \<open>
  \<^verbatim>\<open>(data.rankings || []).map(({ resume: _r, ...rest }) => rest)\<close>. Reading a property
  of \<^verbatim>\<open>null\<close> throws; of the other values only an object can have a member named
  \<^verbatim>\<open>rankings\<close>; a truthy value that is not an array has no \<^verbatim>\<open>map\<close> to call.
\<close>

definition cleanRankings :: "json \<Rightarrow> error + json list" where
  "cleanRankings data =
     (case data of
        JNull \<Rightarrow> Inl TypeError
      | _ \<Rightarrow>
          (let r = (case data of JObj kvs \<Rightarrow> get_prop kvs ''rankings'' | _ \<Rightarrow> None);
               a = (case r of None \<Rightarrow> JArr [] | Some v \<Rightarrow> if truthy v then v else JArr [])
           in case a of JArr xs \<Rightarrow> map_throwing strip_resume xs | _ \<Rightarrow> Inl TypeError))"

text \<open>\<^verbatim>\<open>{ resultId: saved._id, ...data }\<close>, the identifier serialised as its hex text.\<close>

definition result_body :: "session \<Rightarrow> json \<Rightarrow> json" where
  "result_body saved data =
     JObj (spread [(''resultId'', JStr (hex (sid saved)))] (own_props data))"

text \<open>\<^verbatim>\<open>weights ? JSON.parse(weights) : undefined\<close>.\<close>

definition parse_weights :: "env \<Rightarrow> string option \<Rightarrow> error + json option" where
  "parse_weights E ws =
     (case ws of
        None \<Rightarrow> Inr None
      | Some t \<Rightarrow>
          if t = [] then Inr None
          else (case JSON_parse E t of None \<Rightarrow> Inl SyntaxError | Some v \<Rightarrow> Inr (Some v)))"

text \<open>
  The form of lines 47 to 52: \<^verbatim>\<open>jd\<close>, \<^verbatim>\<open>weights\<close> only when the field is truthy, and
  one \<^verbatim>\<open>resumes\<close> part for each file.
\<close>

definition upload_form :: "string \<Rightarrow> string option \<Rightarrow> tmp_file list \<Rightarrow> ml_request" where
  "upload_form jd ws fs =
     RankUpload jd (if present ws then ws else None) (map (\<lambda>f. (path f, originalname f)) fs)"

text \<open>
  The \<^verbatim>\<open>try\<close> block of \<^verbatim>\<open>POST /upload\<close> (lines 46 to 72): build the form, call the
  engine, throw on a status that is not ok, decode the body, strip the items, parse the
  weights text when there is one, create the session, answer.
\<close>

definition upload_try ::
  "env \<Rightarrow> ObjectId \<Rightarrow> string \<Rightarrow> string option \<Rightarrow> tmp_file list \<Rightarrow> world
     \<Rightarrow> (error + json) \<times> world" where
  "upload_try E uid jd ws fs w =
     (let form = upload_form jd ws fs;
          w1 = w\<lparr>ml_calls := ml_calls w @ [form]\<rparr>
      in case fetch E form of
        None \<Rightarrow> (Inl FetchError, w1)
      | Some mlRes \<Rightarrow>
          if \<not> ok mlRes then (Inl (Thrown (res_text mlRes) (Some (res_status mlRes))), w1)
          else (case res_json mlRes of
            None \<Rightarrow> (Inl InvalidJson, w1)
          | Some data \<Rightarrow>
         (case cleanRankings data of
            Inl e \<Rightarrow> (Inl e, w1)
          | Inr clean \<Rightarrow>
         (case parse_weights E ws of
            Inl e \<Rightarrow> (Inl e, w1)
          | Inr given \<Rightarrow>
         (case RankResult_create E uid jd clean given (sessions w1) of
            Inl e \<Rightarrow> (Inl e, w1)
          | Inr (saved, docs) \<Rightarrow> (Inr (result_body saved data), w1\<lparr>sessions := docs\<rparr>))))))"

text \<open>
  \<^verbatim>\<open>POST /api/rank/upload\<close>: the two early returns, then the \<^verbatim>\<open>try\<close> block with its
  \<^verbatim>\<open>catch\<close> (\<^verbatim>\<open>next(err)\<close>) and its \<^verbatim>\<open>finally\<close> (unlink every file).
\<close>

definition upload :: "env \<Rightarrow> ObjectId \<Rightarrow> upload_req \<Rightarrow> world \<Rightarrow> outcome \<times> world" where
  "upload E uid req w =
     (let files = up_files req;
          no_jd = (Res 400 (ErrorMsg ''jd (job description) is required.''),
                   unlink_all E files w)
      in case up_jd req of
        None \<Rightarrow> no_jd
      | Some jd \<Rightarrow>
          if jd = [] then no_jd
          else if length files = 0 then
            (Res 400 (ErrorMsg ''At least one resume file is required.''), w)
          else
            (case upload_try E uid jd (up_weights req) files w of
               (Inr b, w') \<Rightarrow> (Res 200 (Envelope b), unlink_all E files w')
             | (Inl e, w') \<Rightarrow> (Next e, unlink_all E files w')))"

text \<open>\<^verbatim>\<open>POST /api/rank/stored\<close>; \<^verbatim>\<open>top_k\<close> is 20 when the body has none.\<close>

definition stored_try ::
  "env \<Rightarrow> ObjectId \<Rightarrow> string \<Rightarrow> real \<Rightarrow> world \<Rightarrow> (error + json) \<times> world" where
  "stored_try E uid jd top_k w =
     (let form = RankStored jd top_k;
          w1 = w\<lparr>ml_calls := ml_calls w @ [form]\<rparr>
      in case fetch E form of
        None \<Rightarrow> (Inl FetchError, w1)
      | Some mlRes \<Rightarrow>
          if \<not> ok mlRes then (Inl (Thrown (res_text mlRes) None), w1)
          else (case res_json mlRes of
            None \<Rightarrow> (Inl InvalidJson, w1)
          | Some data \<Rightarrow>
         (case cleanRankings data of
            Inl e \<Rightarrow> (Inl e, w1)
          | Inr clean \<Rightarrow>
         (case RankResult_create E uid jd clean None (sessions w1) of
            Inl e \<Rightarrow> (Inl e, w1)
          | Inr (saved, docs) \<Rightarrow> (Inr (result_body saved data), w1\<lparr>sessions := docs\<rparr>)))))"

definition stored :: "env \<Rightarrow> ObjectId \<Rightarrow> stored_req \<Rightarrow> world \<Rightarrow> outcome \<times> world" where
  "stored E uid req w =
     (let no_jd = (Res 400 (ErrorMsg ''jd is required.''), w)
      in case st_jd req of
        None \<Rightarrow> no_jd
      | Some jd \<Rightarrow>
          if jd = [] then no_jd
          else
            (case stored_try E uid jd (case st_top_k req of None \<Rightarrow> 20 | Some k \<Rightarrow> k) w of
               (Inr b, w') \<Rightarrow> (Res 200 (Envelope b), w')
             | (Inl e, w') \<Rightarrow> (Next e, w')))"

text \<open>\<^verbatim>\<open>GET /api/rank/history\<close>.\<close>

definition history :: "env \<Rightarrow> ObjectId \<Rightarrow> world \<Rightarrow> outcome \<times> world" where
  "history E uid w =
     (case RankResult_find E uid (sessions w) of
        Inl e \<Rightarrow> (Next e, w)
      | Inr results \<Rightarrow> (Res 200 (Summaries results), w))"

text \<open>\<^verbatim>\<open>GET /api/rank/history/:id\<close>.\<close>

definition history_id :: "env \<Rightarrow> ObjectId \<Rightarrow> string \<Rightarrow> world \<Rightarrow> outcome \<times> world" where
  "history_id E uid ident w =
     (case RankResult_findOne E ident uid (sessions w) of
        Inl e \<Rightarrow> (Next e, w)
      | Inr None \<Rightarrow> (Res 404 (ErrorMsg ''Not found.''), w)
      | Inr (Some result) \<Rightarrow> (Res 200 (Document result), w))"

text \<open>The two submission routes of the router, as one operation.\<close>

datatype submission = Upload upload_req | Stored stored_req

fun submit :: "env \<Rightarrow> ObjectId \<Rightarrow> submission \<Rightarrow> world \<Rightarrow> outcome \<times> world" where
  "submit E uid (Upload req) w = upload E uid req w"
| "submit E uid (Stored req) w = stored E uid req w"

section \<open>Notions used to state the properties\<close>

text \<open>
  The engine call for a form has failed when the connection fails, the status is not a
  success, or the body does not decode.
\<close>

definition engine_failed :: "env \<Rightarrow> ml_request \<Rightarrow> bool" where
  "engine_failed E form =
     (case fetch E form of None \<Rightarrow> True | Some r \<Rightarrow> \<not> ok r \<or> res_json r = None)"

text \<open>The member \<^verbatim>\<open>rankings\<close> of a response body, when the response has one.\<close>

definition response_rankings :: "outcome \<Rightarrow> json option" where
  "response_rankings out =
     (case out of Res st (Envelope (JObj kvs)) \<Rightarrow> get_prop kvs ''rankings'' | _ \<Rightarrow> None)"

text \<open>The specification's reading of a weight: a real number that is not negative.\<close>

definition nonneg_weight :: "real option \<Rightarrow> bool" where
  "nonneg_weight x = (case x of None \<Rightarrow> False | Some r \<Rightarrow> 0 \<le> r)"

definition nonneg_weights :: "weights \<Rightarrow> bool" where
  "nonneg_weights ws =
     (nonneg_weight (semantic ws) \<and> nonneg_weight (skill ws) \<and>
      nonneg_weight (experience ws) \<and> nonneg_weight (education ws))"

definition persisted_weights :: "world \<Rightarrow> weights list" where
  "persisted_weights w = map weights (sessions w)"

text \<open>The four weight paths: name, schema default, and selector.\<close>

definition weight_fields :: "(string \<times> real option \<times> (weights \<Rightarrow> real option)) list" where
  "weight_fields =
     [(''semantic'', Some 0.5, semantic), (''skill'', Some 0.25, skill),
      (''experience'', Some 0.15, experience), (''education'', Some 0.1, education)]"

section \<open>A stub environment and sample requests\<close>

text \<open>
  A stand-in for the engine and the libraries, to run the handlers on concrete inputs:
  the engine answers every form with one ranked record for \<^verbatim>\<open>alice.pdf\<close>, the parser
  knows two weight texts, an ObjectId is 24 lower-case hexadecimal digits, a number
  casts to itself, and items are stored with the members they were given.
\<close>

definition sample_envelope :: json where
  "sample_envelope =
     JObj [(''count'', JNum 1),
           (''rankings'', JArr [JObj [(''resume'', JStr ''alice.pdf''),
                                      (''filename'', JStr ''alice.pdf''),
                                      (''rank'', JNum 1),
                                      (''total_score'', JNum 0.87),
                                      (''fit_category'', JStr ''Strong Match''),
                                      (''matched_skills'', JArr [JStr ''go''])]])]"

definition sample_clean :: "json list" where
  "sample_clean =
     [JObj [(''filename'', JStr ''alice.pdf''),
            (''rank'', JNum 1),
            (''total_score'', JNum 0.87),
            (''fit_category'', JStr ''Strong Match''),
            (''matched_skills'', JArr [JStr ''go''])]]"

definition full_weights_text :: string where
  \<open>full_weights_text = ''{"semantic":0.6,"skill":0.2,"experience":0.1,"education":0.1}''\<close>

definition negative_weights_text :: string where
  \<open>negative_weights_text = ''{"semantic":-1}''\<close>

definition stub_parse :: "string \<Rightarrow> json option" where
  "stub_parse t =
     (if t = full_weights_text then
        Some (JObj [(''semantic'', JNum 0.6), (''skill'', JNum 0.2),
                    (''experience'', JNum 0.1), (''education'', JNum 0.1)])
      else if t = negative_weights_text then Some (JObj [(''semantic'', JNum (- 1))])
      else None)"

definition stub_castObjectId :: "string \<Rightarrow> ObjectId option" where
  "stub_castObjectId t =
     (if length t = 24 \<and> list_all (\<lambda>c. c \<in> set ''0123456789abcdef'') t
      then Some (ObjectId t) else None)"

definition stub_castNumber :: "json \<Rightarrow> real option option" where
  "stub_castNumber v = (case v of JNum x \<Rightarrow> Some (Some x) | JNull \<Rightarrow> Some None | _ \<Rightarrow> None)"

definition stub_env :: env where
  "stub_env =
     \<lparr>fetch = (\<lambda>form. Some \<lparr>res_status = 200, res_text = [], res_json = Some sample_envelope\<rparr>),
      JSON_parse = stub_parse,
      castObjectId = stub_castObjectId,
      castNumber = stub_castNumber,
      setNested = (\<lambda>v. None),
      castRankings = (\<lambda>items. Some (map own_props items)),
      db_down = False,
      unlink_fails = (\<lambda>p. False),
      new_id = ObjectId ''65f0c0ffee0123456789abcd'',
      now = 1700000000\<rparr>"

text \<open>The same engine, out of service: it answers 503 with a text body.\<close>

definition failing_env :: env where
  "failing_env =
     stub_env\<lparr>fetch := (\<lambda>form. Some \<lparr>res_status = 503, res_text = ''engine overloaded'',
                                       res_json = None\<rparr>)\<rparr>"

definition alice :: ObjectId where
  "alice = ObjectId ''aaaaaaaaaaaaaaaaaaaaaaaa''"

definition bob :: ObjectId where
  "bob = ObjectId ''bbbbbbbbbbbbbbbbbbbbbbbb''"

definition sample_file :: tmp_file where
  "sample_file = \<lparr>path = ''tmp_rank/3f9a'', originalname = ''alice.pdf''\<rparr>"

definition sample_world :: world where
  "sample_world = \<lparr>sessions = [], tmp_files = {''tmp_rank/3f9a'', ''tmp_rank/77c1''}, ml_calls = []\<rparr>"

definition sample_upload :: upload_req where
  "sample_upload =
     \<lparr>up_jd = Some ''Senior backend engineer, 5+ years Go, Kubernetes'',
      up_weights = Some full_weights_text, up_files = [sample_file]\<rparr>"

definition negative_upload :: upload_req where
  "negative_upload = sample_upload\<lparr>up_weights := Some negative_weights_text\<rparr>"

definition empty_upload :: upload_req where
  "empty_upload = sample_upload\<lparr>up_files := []\<rparr>"

definition sample_stored :: stored_req where
  "sample_stored = \<lparr>st_jd = Some ''Senior backend engineer'', st_top_k = None\<rparr>"

text \<open>A session of bob's, and a collection holding it.\<close>

definition bobs_session :: session where
  "bobs_session =
     \<lparr>sid = ObjectId ''65f0c0ffee0123456789abcd'', owner = bob,
      jobDescription = ''Data engineer'', rankings = map own_props sample_clean,
      weights = default_weights, createdAt = 1700000000, updatedAt = 1700000000\<rparr>"

definition bobs_world :: world where
  "bobs_world = \<lparr>sessions = [bobs_session], tmp_files = {}, ml_calls = []\<rparr>"

text \<open>A later session of bob's, and a collection holding both in insertion order.\<close>

definition bobs_later_session :: session where
  "bobs_later_session =
     bobs_session\<lparr>sid := ObjectId ''65f0c0ffee0123456789abce'',
                    jobDescription := ''Site reliability engineer'',
                    createdAt := 1700000500, updatedAt := 1700000500\<rparr>"

definition bobs_two_world :: world where
  "bobs_two_world =
     \<lparr>sessions = [bobs_session, bobs_later_session], tmp_files = {}, ml_calls = []\<rparr>"

text \<open>The answer to the sample submissions: the engine's envelope after \<^verbatim>\<open>resultId\<close>.\<close>

definition sample_response :: json where
  "sample_response =
     JObj [(''resultId'', JStr ''65f0c0ffee0123456789abcd''),
           (''count'', JNum 1),
           (''rankings'', JArr [JObj [(''resume'', JStr ''alice.pdf''),
                                      (''filename'', JStr ''alice.pdf''),
                                      (''rank'', JNum 1),
                                      (''total_score'', JNum 0.87),
                                      (''fit_category'', JStr ''Strong Match''),
                                      (''matched_skills'', JArr [JStr ''go''])]])]"

section \<open>Facts about the handlers\<close>

subsection \<open>Clean-up and the steps of a submission\<close>

lemma sessions_unlink_all [simp]: "sessions (unlink_all E fs w) = sessions w"
  by (simp add: unlink_all_def)

lemma ml_calls_unlink_all [simp]: "ml_calls (unlink_all E fs w) = ml_calls w"
  by (simp add: unlink_all_def)

lemma fold_unlink:
  "fold (\<lambda>f. unlink E (path f)) fs disk = disk - {p \<in> path ` set fs. \<not> unlink_fails E p}"
  by (induction fs arbitrary: disk) (auto simp: unlink_def)

lemma tmp_files_unlink_all:
  "tmp_files (unlink_all E fs w) = tmp_files w - {p \<in> path ` set fs. \<not> unlink_fails E p}"
  by (simp add: unlink_all_def fold_unlink)

lemma RankResult_create_Inr:
  assumes "RankResult_create E uid jd items given docs = Inr (saved, docs')"
  shows "docs' = docs @ [saved]" and "sid saved = new_id E" and "owner saved = uid"
    and "new_id E \<notin> sid ` set docs" and "castRankings E items = Some (rankings saved)"
    and "weights_of E given = Some (weights saved)" and "\<not> db_down E"
    and "jobDescription saved = jd" and "createdAt saved = now E"
  using assms
  by (auto simp: RankResult_create_def Let_def split: if_splits option.splits)

lemma upload_try_world:
  assumes "upload_try E uid jd ws fs w = (r, w')"
  shows "ml_calls w' = ml_calls w @ [upload_form jd ws fs]" and "tmp_files w' = tmp_files w"
  using assms
  by (auto simp: upload_try_def upload_form_def Let_def split: if_splits option.splits sum.splits prod.splits)

lemma upload_try_Inl:
  assumes "upload_try E uid jd ws fs w = (Inl e, w')"
  shows "sessions w' = sessions w"
  using assms
  by (auto simp: upload_try_def Let_def split: if_splits option.splits sum.splits prod.splits)

lemma upload_try_Inr:
  assumes "upload_try E uid jd ws fs w = (Inr b, w')"
  shows "\<exists>r data clean given saved.
           fetch E (upload_form jd ws fs) = Some r \<and> ok r \<and> res_json r = Some data \<and>
           cleanRankings data = Inr clean \<and> parse_weights E ws = Inr given \<and>
           RankResult_create E uid jd clean given (sessions w) = Inr (saved, sessions w') \<and>
           b = result_body saved data"
  using assms
  by (auto simp: upload_try_def upload_form_def Let_def split: if_splits option.splits sum.splits prod.splits)

lemma upload_try_failed:
  assumes "engine_failed E (upload_form jd ws fs)"
  shows "upload_try E uid jd ws fs w =
           (Inl (case fetch E (upload_form jd ws fs) of
                   None \<Rightarrow> FetchError
                 | Some r \<Rightarrow> if \<not> ok r then Thrown (res_text r) (Some (res_status r))
                             else InvalidJson),
            w\<lparr>ml_calls := ml_calls w @ [upload_form jd ws fs]\<rparr>)"
  using assms
  by (auto simp: upload_try_def upload_form_def engine_failed_def Let_def split: option.splits)


lemma stored_try_world:
  assumes "stored_try E uid jd k w = (r, w')"
  shows "ml_calls w' = ml_calls w @ [RankStored jd k]" and "tmp_files w' = tmp_files w"
  using assms
  by (auto simp: stored_try_def Let_def split: if_splits option.splits sum.splits prod.splits)

lemma stored_try_Inl:
  assumes "stored_try E uid jd k w = (Inl e, w')"
  shows "sessions w' = sessions w"
  using assms
  by (auto simp: stored_try_def Let_def split: if_splits option.splits sum.splits prod.splits)

lemma stored_try_Inr:
  assumes "stored_try E uid jd k w = (Inr b, w')"
  shows "\<exists>r data clean saved.
           fetch E (RankStored jd k) = Some r \<and> ok r \<and> res_json r = Some data \<and>
           cleanRankings data = Inr clean \<and>
           RankResult_create E uid jd clean None (sessions w) = Inr (saved, sessions w') \<and>
           b = result_body saved data"
  using assms
  by (auto simp: stored_try_def Let_def split: if_splits option.splits sum.splits prod.splits)

lemma stored_try_failed:
  assumes "engine_failed E (RankStored jd k)"
  shows "stored_try E uid jd k w =
           (Inl (case fetch E (RankStored jd k) of
                   None \<Rightarrow> FetchError
                 | Some r \<Rightarrow> if \<not> ok r then Thrown (res_text r) None else InvalidJson),
            w\<lparr>ml_calls := ml_calls w @ [RankStored jd k]\<rparr>)"
  using assms
  by (auto simp: stored_try_def engine_failed_def Let_def split: option.splits)

text \<open>The shape of a successful upload and of a successful stored ranking.\<close>

lemma upload_Envelope:
  assumes "upload E uid req w = (Res st (Envelope j), w')"
  shows "\<exists>jd w1. up_jd req = Some jd \<and> jd \<noteq> [] \<and> up_files req \<noteq> [] \<and> st = 200 \<and>
           upload_try E uid jd (up_weights req) (up_files req) w = (Inr j, w1) \<and>
           w' = unlink_all E (up_files req) w1"
  using assms
  by (auto simp: upload_def Let_def split: option.splits if_splits sum.splits prod.splits)

lemma stored_Envelope:
  assumes "stored E uid req w = (Res st (Envelope j), w')"
  shows "\<exists>jd. st_jd req = Some jd \<and> jd \<noteq> [] \<and> st = 200 \<and>
           stored_try E uid jd (case st_top_k req of None \<Rightarrow> 20 | Some k \<Rightarrow> k) w = (Inr j, w')"
  using assms
  by (auto simp: stored_def Let_def split: option.splits if_splits sum.splits prod.splits)

lemma upload_calls:
  assumes "upload E uid req w = (out, w')" and "ml_calls w' = ml_calls w @ [form]"
  shows "\<exists>jd. up_jd req = Some jd \<and> jd \<noteq> [] \<and> up_files req \<noteq> [] \<and>
           form = upload_form jd (up_weights req) (up_files req)"
  using assms
  by (auto simp: upload_def Let_def dest: upload_try_world(1)
      split: option.splits if_splits sum.splits prod.splits)

lemma stored_calls:
  assumes "stored E uid req w = (out, w')" and "ml_calls w' = ml_calls w @ [form]"
  shows "\<exists>jd. st_jd req = Some jd \<and> jd \<noteq> [] \<and>
           form = RankStored jd (case st_top_k req of None \<Rightarrow> 20 | Some k \<Rightarrow> k)"
  using assms
  by (auto simp: stored_def Let_def dest: stored_try_world(1)
      split: option.splits if_splits sum.splits prod.splits)

subsection \<open>The environment's clean-up behaviour is not read by the pipeline\<close>

lemma parse_weights_unlink_fails:
  "parse_weights (E\<lparr>unlink_fails := g\<rparr>) ws = parse_weights E ws"
  by (simp add: parse_weights_def cong: option.case_cong if_cong)

lemma weight_path_unlink_fails:
  "weight_path (E\<lparr>unlink_fails := g\<rparr>) kvs name dflt = weight_path E kvs name dflt"
  by (simp add: weight_path_def cong: option.case_cong)

lemma weights_of_unlink_fails:
  "weights_of (E\<lparr>unlink_fails := g\<rparr>) given = weights_of E given"
  by (simp add: weights_of_def weight_path_unlink_fails cong: option.case_cong json.case_cong)

lemma RankResult_create_unlink_fails:
  "RankResult_create (E\<lparr>unlink_fails := g\<rparr>) uid jd items given docs =
     RankResult_create E uid jd items given docs"
  by (simp add: RankResult_create_def weights_of_unlink_fails cong: option.case_cong if_cong)

lemma upload_try_unlink_fails:
  "upload_try (E\<lparr>unlink_fails := g\<rparr>) uid jd ws fs w = upload_try E uid jd ws fs w"
  by (simp add: upload_try_def parse_weights_unlink_fails RankResult_create_unlink_fails
      cong: option.case_cong sum.case_cong if_cong)


text \<open>The four ways out of the upload handler.\<close>

lemma upload_exits:
  obtains
    (no_jd) "\<not> present (up_jd req)"
      "upload E uid req w =
         (Res 400 (ErrorMsg ''jd (job description) is required.''),
          unlink_all E (up_files req) w)"
  | (no_files) "present (up_jd req)" "up_files req = []"
      "upload E uid req w = (Res 400 (ErrorMsg ''At least one resume file is required.''), w)"
  | (failed) jd e w1 where "up_jd req = Some jd" "jd \<noteq> []" "up_files req \<noteq> []"
      "upload_try E uid jd (up_weights req) (up_files req) w = (Inl e, w1)"
      "upload E uid req w = (Next e, unlink_all E (up_files req) w1)"
  | (answered) jd b w1 where "up_jd req = Some jd" "jd \<noteq> []" "up_files req \<noteq> []"
      "upload_try E uid jd (up_weights req) (up_files req) w = (Inr b, w1)"
      "upload E uid req w = (Res 200 (Envelope b), unlink_all E (up_files req) w1)"
proof (cases "up_jd req")
  case None
  then show ?thesis using no_jd by (simp add: upload_def Let_def)
next
  case (Some jd)
  show ?thesis
  proof (cases "jd = []")
    case True
    with Some show ?thesis using no_jd by (simp add: upload_def Let_def)
  next
    case jd: False
    show ?thesis
    proof (cases "up_files req = []")
      case True
      with Some jd show ?thesis using no_files by (simp add: upload_def Let_def)
    next
      case fs: False
      obtain r w1 where t: "upload_try E uid jd (up_weights req) (up_files req) w = (r, w1)"
        by (cases "upload_try E uid jd (up_weights req) (up_files req) w")
      show ?thesis
      proof (cases r)
        case (Inl e)
        with Some jd fs t show ?thesis using failed [of jd e w1]
          by (simp add: upload_def Let_def)
      next
        case (Inr b)
        with Some jd fs t show ?thesis using answered [of jd b w1]
          by (simp add: upload_def Let_def)
      qed
    qed
  qed
qed

lemma tmp_files_upload:
  "tmp_files (snd (upload E uid req w)) =
     tmp_files w - {p \<in> path ` set (up_files req). \<not> unlink_fails E p}"
proof (cases rule: upload_exits [of req E uid w])
  case no_jd
  then show ?thesis by (simp add: tmp_files_unlink_all)
next
  case no_files
  then show ?thesis by simp
next
  case (failed jd e w1)
  from upload_try_world(2) [OF failed(4)] failed(5) show ?thesis
    by (simp add: tmp_files_unlink_all)
next
  case (answered jd b w1)
  from upload_try_world(2) [OF answered(4)] answered(5) show ?thesis
    by (simp add: tmp_files_unlink_all)
qed

lemma upload_unlink_fails:
  "fst (upload (E\<lparr>unlink_fails := g\<rparr>) uid req w) = fst (upload E uid req w) \<and>
   sessions (snd (upload (E\<lparr>unlink_fails := g\<rparr>) uid req w)) =
     sessions (snd (upload E uid req w))"
proof (cases rule: upload_exits [of req E uid w])
  case no_jd
  then show ?thesis by (cases "up_jd req") (simp_all add: upload_def Let_def)
next
  case no_files
  then show ?thesis by (cases "up_jd req") (simp_all add: upload_def Let_def)
next
  case (failed jd e w1)
  then show ?thesis by (simp add: upload_def Let_def upload_try_unlink_fails)
next
  case (answered jd b w1)
  then show ?thesis by (simp add: upload_def Let_def upload_try_unlink_fails)
qed

subsection \<open>Unfolding the definitions on concrete inputs\<close>

lemmas stub_defs = stub_env_def stub_parse_def stub_castObjectId_def stub_castNumber_def
  sample_envelope_def sample_clean_def full_weights_text_def negative_weights_text_def
  failing_env_def alice_def bob_def sample_file_def sample_world_def sample_upload_def
  negative_upload_def empty_upload_def sample_stored_def bobs_session_def bobs_world_def
  bobs_later_session_def bobs_two_world_def sample_response_def

lemmas run_defs = upload_def upload_try_def upload_form_def stored_def stored_try_def ok_def
  cleanRankings_def get_prop_def strip_resume_def own_props_def AList.delete_eq
  parse_weights_def RankResult_create_def weights_of_def weight_path_def default_weights_def
  result_body_def spread_def unlink_all_def unlink_def Let_def history_id_def
  RankResult_findOne_def history_def RankResult_find_def select_summary_def select_item_def
  selected_item_fields_def

subsection \<open>Looking a session up\<close>

lemma find_owner_filter:
  "find (\<lambda>s. sid s = i \<and> owner s = uid) (filter (\<lambda>s. owner s = uid) docs) =
   find (\<lambda>s. sid s = i \<and> owner s = uid) docs"
  by (induction docs) auto

lemma find_Some_mem: "find P xs = Some x \<Longrightarrow> x \<in> set xs \<and> P x"
  by (induction xs) (auto split: if_splits)

lemma history_id_run:
  "fst (history_id E uid ident w) =
     (case castObjectId E ident of
        None \<Rightarrow> Next CastError
      | Some i \<Rightarrow>
          if db_down E then Next StorageError
          else (case find (\<lambda>s. sid s = i \<and> owner s = uid) (sessions w) of
                  None \<Rightarrow> Res 404 (ErrorMsg ''Not found.'')
                | Some s \<Rightarrow> Res 200 (Document s)))"
  and "snd (history_id E uid ident w) = w"
  by (simp_all add: history_id_def RankResult_findOne_def split: option.splits)

subsection \<open>The projection and the order of the list view\<close>

lemma map_of_filter_key:
  "map_of (filter (\<lambda>(k, v). P k) xs) k = (if P k then map_of xs k else None)"
  by (induction xs) auto

lemma get_prop_select_item:
  "get_prop (select_item item) k =
     (if k \<in> set selected_item_fields then get_prop item k else None)"
  by (simp add: get_prop_def select_item_def rev_filter map_of_filter_key)

lemma keys_select_item: "fst ` set (select_item item) \<subseteq> set selected_item_fields"
  by (auto simp: select_item_def)

lemma newest_first:
  "sorted_wrt (\<lambda>a b. createdAt b \<le> createdAt a) (rev (sort_key createdAt docs))"
proof -
  have "sorted (map createdAt (sort_key createdAt docs))" by (rule sorted_sort_key)
  then have "sorted_wrt (\<lambda>a b. createdAt a \<le> createdAt b) (sort_key createdAt docs)"
    by (simp add: sorted_wrt_map)
  then show ?thesis by (simp add: sorted_wrt_rev)
qed

lemma beyond_limit:
  assumes "sorted_wrt (\<lambda>a b. createdAt b \<le> createdAt a) xs" and "s \<in> set xs"
  shows "s \<in> set (take n xs) \<or>
         (length (take n xs) = n \<and> (\<forall>t \<in> set (take n xs). createdAt s \<le> createdAt t))"
proof (cases "s \<in> set (take n xs)")
  case True
  then show ?thesis by simp
next
  case False
  have "set xs = set (take n xs) \<union> set (drop n xs)"
    by (metis append_take_drop_id set_append)
  with assms(2) False have d: "s \<in> set (drop n xs)" by blast
  then have "n < length xs" by (cases "n < length xs") auto
  then have len: "length (take n xs) = n" by simp
  from assms(1) have "sorted_wrt (\<lambda>a b. createdAt b \<le> createdAt a) (take n xs @ drop n xs)"
    by simp
  with d have "\<forall>t \<in> set (take n xs). createdAt s \<le> createdAt t"
    unfolding sorted_wrt_append by blast
  with len show ?thesis by simp
qed

subsection \<open>Reading properties after a spread and after a rest pattern\<close>

lemma own_props_JObj [simp]: "own_props (JObj kvs) = kvs"
  by (simp add: own_props_def)

lemma map_of_rev_distinct: "distinct (map fst xs) \<Longrightarrow> map_of (rev xs) = map_of xs"
proof (induction xs)
  case Nil
  show ?case by simp
next
  case (Cons x xs)
  obtain k v where x: "x = (k, v)" by (cases x)
  from Cons.prems have fresh: "map_of xs k = None"
    by (simp add: x map_of_eq_None_iff)
  from Cons have IH: "map_of (rev xs) = map_of xs" by simp
  show ?case
    using fresh by (auto simp: x IH map_add_def fun_eq_iff split: option.splits)
qed

lemma distinct_spread: "distinct (map fst base) \<Longrightarrow> distinct (map fst (spread base extra))"
  unfolding spread_def
  by (induction extra arbitrary: base) (auto simp: AList.distinct_update)

lemma map_of_spread: "map_of (spread base extra) = map_of base ++ map_of (rev extra)"
  unfolding spread_def
proof (induction extra arbitrary: base)
  case Nil
  show ?case by simp
next
  case (Cons x extra)
  obtain k v where x: "x = (k, v)" by (cases x)
  have "map_of (fold (\<lambda>(k, v). AList.update k v) (x # extra) base) =
        map_of (AList.update k v base) ++ map_of (rev extra)"
    using Cons.IH [of "AList.update k v base"] by (simp add: x)
  also have "\<dots> = map_of base ++ map_of (rev (x # extra))"
    by (simp add: x AList.update_conv' map_add_def fun_eq_iff split: option.splits)
  finally show ?case .
qed

lemma get_prop_spread:
  assumes "distinct (map fst base)"
  shows "get_prop (spread base extra) k =
           (case get_prop extra k of None \<Rightarrow> get_prop base k | Some v \<Rightarrow> Some v)"
proof -
  have "get_prop (spread base extra) k = map_of (spread base extra) k"
    by (simp add: get_prop_def map_of_rev_distinct [OF distinct_spread [OF assms]])
  also have "\<dots> = (map_of base ++ map_of (rev extra)) k" by (simp add: map_of_spread)
  also have "\<dots> = (case get_prop extra k of None \<Rightarrow> get_prop base k | Some v \<Rightarrow> Some v)"
    by (simp add: get_prop_def map_add_def map_of_rev_distinct [OF assms] split: option.splits)
  finally show ?thesis .
qed

lemma get_prop_delete:
  "get_prop (AList.delete k kvs) k' = (if k' = k then None else get_prop kvs k')"
proof -
  have "rev (AList.delete k kvs) = AList.delete k (rev kvs)"
    by (simp add: AList.delete_eq rev_filter)
  then show ?thesis by (simp add: get_prop_def AList.delete_conv')
qed

lemma get_prop_result_body:
  "k \<noteq> ''resultId'' \<Longrightarrow>
     get_prop (own_props (result_body saved data)) k = get_prop (own_props data) k"
  by (simp add: result_body_def get_prop_spread) (simp add: get_prop_def split: option.splits)

lemma get_prop_result_body_id:
  "get_prop (own_props (result_body saved data)) ''resultId'' =
     (case get_prop (own_props data) ''resultId'' of
        None \<Rightarrow> Some (JStr (hex (sid saved)))
      | Some v \<Rightarrow> Some v)"
  by (simp add: result_body_def get_prop_spread) (simp add: get_prop_def split: option.splits)

lemma strip_resume_Inr:
  assumes "strip_resume v = Inr c"
  shows "get_prop (own_props c) ''resume'' = None"
    and "k \<noteq> ''resume'' \<Longrightarrow> get_prop (own_props c) k = get_prop (own_props v) k"
proof -
  from assms have c: "c = JObj (AList.delete ''resume'' (own_props v))"
    by (cases v) (simp_all add: strip_resume_def)
  show "get_prop (own_props c) ''resume'' = None"
    by (simp add: c get_prop_delete)
  show "get_prop (own_props c) k = get_prop (own_props v) k" if "k \<noteq> ''resume''"
    using that by (simp add: c get_prop_delete)
qed

lemma map_throwing_Inr:
  "map_throwing f xs = Inr ys \<Longrightarrow> list_all2 (\<lambda>x y. f x = Inr y) xs ys"
  by (induction xs arbitrary: ys) (auto split: sum.splits)

lemma cleanRankings_items:
  assumes "cleanRankings data = Inr clean"
  shows "\<forall>c \<in> set clean. get_prop (own_props c) ''resume'' = None"
    and "data = JObj kvs \<Longrightarrow> get_prop kvs ''rankings'' = Some (JArr xs) \<Longrightarrow>
         length clean = length xs \<and>
         (\<forall>n < length xs. \<forall>k. k \<noteq> ''resume'' \<longrightarrow>
            get_prop (own_props (clean ! n)) k = get_prop (own_props (xs ! n)) k)"
proof -
  define ys where
    "ys = (case data of
             JObj kvs \<Rightarrow> (case get_prop kvs ''rankings'' of Some (JArr xs) \<Rightarrow> xs | _ \<Rightarrow> [])
           | _ \<Rightarrow> [])"
  have ys: "map_throwing strip_resume ys = Inr clean"
    using assms
    by (cases data)
       (auto simp: cleanRankings_def Let_def ys_def split: json.splits option.splits if_splits)
  have src: "ys = xs" if "data = JObj kvs" and "get_prop kvs ''rankings'' = Some (JArr xs)"
    for kvs xs
    using that by (simp add: ys_def)
  from map_throwing_Inr [OF ys] have rel: "list_all2 (\<lambda>x y. strip_resume x = Inr y) ys clean" .
  show "\<forall>c \<in> set clean. get_prop (own_props c) ''resume'' = None"
  proof
    fix c assume "c \<in> set clean"
    then obtain n where n: "n < length clean" "c = clean ! n" by (auto simp: in_set_conv_nth)
    with rel have "strip_resume (ys ! n) = Inr c"
      by (auto simp: list_all2_conv_all_nth)
    then show "get_prop (own_props c) ''resume'' = None" by (rule strip_resume_Inr(1))
  qed
  show "length clean = length xs \<and>
         (\<forall>n < length xs. \<forall>k. k \<noteq> ''resume'' \<longrightarrow>
            get_prop (own_props (clean ! n)) k = get_prop (own_props (xs ! n)) k)"
    if "data = JObj kvs" and "get_prop kvs ''rankings'' = Some (JArr xs)"
  proof -
    from src [OF that] rel have rel': "list_all2 (\<lambda>x y. strip_resume x = Inr y) xs clean"
      by simp
    then have len: "length clean = length xs" by (simp add: list_all2_lengthD)
    have "get_prop (own_props (clean ! n)) k = get_prop (own_props (xs ! n)) k"
      if "n < length xs" and "k \<noteq> ''resume''" for n k
    proof -
      from rel' that(1) have "strip_resume (xs ! n) = Inr (clean ! n)"
        by (simp add: list_all2_conv_all_nth)
      from strip_resume_Inr(2) [OF this that(2)] show ?thesis .
    qed
    with len show ?thesis by simp
  qed
qed

subsection \<open>What a successful submission went through\<close>

lemma upload_success:
  assumes "upload E uid req w = (Res st (Envelope j), w')"
  obtains jd r data clean given saved where
    "up_jd req = Some jd" "jd \<noteq> []" "up_files req \<noteq> []" "st = 200"
    "ml_calls w' = ml_calls w @ [upload_form jd (up_weights req) (up_files req)]"
    "fetch E (upload_form jd (up_weights req) (up_files req)) = Some r"
    "ok r" "res_json r = Some data" "cleanRankings data = Inr clean"
    "parse_weights E (up_weights req) = Inr given"
    "RankResult_create E uid jd clean given (sessions w) = Inr (saved, sessions w')"
    "j = result_body saved data"
proof -
  from upload_Envelope [OF assms] obtain jd w1 where
    a: "up_jd req = Some jd" "jd \<noteq> []" "up_files req \<noteq> []" "st = 200"
    and t: "upload_try E uid jd (up_weights req) (up_files req) w = (Inr j, w1)"
    and w': "w' = unlink_all E (up_files req) w1" by blast
  from upload_try_Inr [OF t] obtain r data clean given saved where
    b: "fetch E (upload_form jd (up_weights req) (up_files req)) = Some r"
       "ok r" "res_json r = Some data" "cleanRankings data = Inr clean"
       "parse_weights E (up_weights req) = Inr given"
       "RankResult_create E uid jd clean given (sessions w) = Inr (saved, sessions w1)"
       "j = result_body saved data" by blast
  from upload_try_world(1) [OF t] w'
  have "ml_calls w' = ml_calls w @ [upload_form jd (up_weights req) (up_files req)]" by simp
  with a b w' that [of jd r data clean given saved] show thesis by simp
qed

lemma stored_success:
  assumes "stored E uid req w = (Res st (Envelope j), w')"
  obtains jd k r data clean saved where
    "st_jd req = Some jd" "jd \<noteq> []" "st = 200"
    "ml_calls w' = ml_calls w @ [RankStored jd k]"
    "fetch E (RankStored jd k) = Some r"
    "ok r" "res_json r = Some data" "cleanRankings data = Inr clean"
    "RankResult_create E uid jd clean None (sessions w) = Inr (saved, sessions w')"
    "j = result_body saved data"
proof -
  define k where "k = (case st_top_k req of None \<Rightarrow> 20 | Some k \<Rightarrow> k)"
  from stored_Envelope [OF assms] obtain jd where
    a: "st_jd req = Some jd" "jd \<noteq> []" "st = 200"
    and t: "stored_try E uid jd k w = (Inr j, w')" unfolding k_def by blast
  from stored_try_Inr [OF t] obtain r data clean saved where
    b: "fetch E (RankStored jd k) = Some r"
       "ok r" "res_json r = Some data" "cleanRankings data = Inr clean"
       "RankResult_create E uid jd clean None (sessions w) = Inr (saved, sessions w')"
       "j = result_body saved data" by blast
  from stored_try_world(1) [OF t] a b that [of jd k r data clean saved] show thesis by simp
qed

subsection \<open>The created session and its weights\<close>

lemma find_appended:
  assumes "i \<notin> sid ` set docs" and "sid s = i" and "owner s = uid"
  shows "find (\<lambda>s. sid s = i \<and> owner s = uid) (docs @ [s]) = Some s"
  using assms by (induction docs) auto

lemma history_id_created:
  assumes "RankResult_create E uid jd clean given (sessions w) = Inr (saved, sessions w')"
    and "castObjectId E' ident = Some (new_id E)" and "\<not> db_down E'"
  shows "history_id E' uid ident w' = (Res 200 (Document saved), w')"
proof -
  note c = RankResult_create_Inr [OF assms(1)]
  from find_appended [OF c(4) c(2) c(3)] c(1)
  have "find (\<lambda>s. sid s = new_id E \<and> owner s = uid) (sessions w') = Some saved" by simp
  with assms(2,3) show ?thesis
    by (simp add: history_id_def RankResult_findOne_def)
qed

lemma weights_of_JObj:
  assumes "weights_of E (Some (JObj kvs)) = Some ws"
  shows "weight_path E kvs ''semantic'' (Some 0.5) = Some (semantic ws)"
    and "weight_path E kvs ''skill'' (Some 0.25) = Some (skill ws)"
    and "weight_path E kvs ''experience'' (Some 0.15) = Some (experience ws)"
    and "weight_path E kvs ''education'' (Some 0.1) = Some (education ws)"
  using assms
  by (auto simp: weights_of_def default_weights_def split: option.splits)

lemma weight_path_Some:
  assumes "weight_path E kvs name dflt = Some x"
  shows "case get_prop kvs name of None \<Rightarrow> x = dflt | Some v \<Rightarrow> castNumber E v = Some x"
  using assms by (auto simp: weight_path_def split: option.splits)

lemma parse_weights_absent: "\<not> present ws \<Longrightarrow> parse_weights E ws = Inr None"
  by (cases ws) (simp_all add: parse_weights_def)

lemma parse_weights_text:
  "t \<noteq> [] \<Longrightarrow> JSON_parse E t = Some v \<Longrightarrow> parse_weights E (Some t) = Inr (Some v)"
  by (simp add: parse_weights_def)

text \<open>The collection keeps its identifiers distinct: a submission appends at most one
  session, and only under an identifier no session has.\<close>

lemma submit_sessions:
  "sessions (snd (submit E uid sub w)) = sessions w \<or>
   (\<exists>saved. sessions (snd (submit E uid sub w)) = sessions w @ [saved] \<and>
            sid saved \<notin> sid ` set (sessions w))"
proof (cases sub)
  case (Upload req)
  show ?thesis
  proof (cases rule: upload_exits [of req E uid w])
    case no_jd
    with Upload show ?thesis by simp
  next
    case no_files
    with Upload show ?thesis by simp
  next
    case (failed jd e w1)
    with Upload upload_try_Inl [OF failed(4)] show ?thesis by simp
  next
    case (answered jd b w1)
    from upload_try_Inr [OF answered(4)] obtain clean given saved where
      "RankResult_create E uid jd clean given (sessions w) = Inr (saved, sessions w1)" by blast
    from RankResult_create_Inr(1,2,4) [OF this] Upload answered(5) show ?thesis by auto
  qed
next
  case (Stored req)
  obtain out w' where run: "stored E uid req w = (out, w')" by (cases "stored E uid req w")
  show ?thesis
  proof (cases "\<exists>st j. out = Res st (Envelope j)")
    case True
    then obtain st j where "stored E uid req w = (Res st (Envelope j), w')" using run by blast
    then obtain jd clean saved where
      "RankResult_create E uid jd clean None (sessions w) = Inr (saved, sessions w')"
      by (elim stored_success)
    from RankResult_create_Inr(1,2,4) [OF this] Stored run show ?thesis by auto
  next
    case False
    with run have "sessions w' = sessions w"
      by (auto simp: stored_def Let_def dest: stored_try_Inl
          split: option.splits if_splits sum.splits prod.splits)
    with Stored run show ?thesis by simp
  qed
qed

lemma submit_keeps_ids_distinct:
  assumes "distinct (map sid (sessions w))"
  shows "distinct (map sid (sessions (snd (submit E uid sub w))))"
  using submit_sessions [of E uid sub w] assms by auto

subsection \<open>The sample submissions, run\<close>

lemma upload_sample_fst:
  "fst (upload stub_env alice sample_upload sample_world) = Res 200 (Envelope sample_response)"
  by (simp add: run_defs stub_defs)

lemma stored_sample_fst:
  "fst (stored stub_env alice sample_stored sample_world) = Res 200 (Envelope sample_response)"
  by (simp add: run_defs stub_defs)

lemma upload_negative_fst:
  "fst (upload stub_env alice negative_upload sample_world) = Res 200 (Envelope sample_response)"
  by (simp add: run_defs stub_defs)

lemma upload_sample_run:
  "upload stub_env alice sample_upload sample_world =
     (Res 200 (Envelope sample_response), snd (upload stub_env alice sample_upload sample_world))"
  by (simp add: prod_eq_iff upload_sample_fst)

lemma stored_sample_run:
  "stored stub_env alice sample_stored sample_world =
     (Res 200 (Envelope sample_response), snd (stored stub_env alice sample_stored sample_world))"
  by (simp add: prod_eq_iff stored_sample_fst)

lemma upload_negative_run:
  "upload stub_env alice negative_upload sample_world =
     (Res 200 (Envelope sample_response), snd (upload stub_env alice negative_upload sample_world))"
  by (simp add: prod_eq_iff upload_negative_fst)

lemma stub_cast_new_id:
  "castObjectId stub_env ''65f0c0ffee0123456789abcd'' = Some (new_id stub_env)"
  by (simp add: stub_env_def stub_castObjectId_def)

lemma stub_db_up: "\<not> db_down stub_env"
  by (simp add: stub_env_def)

section \<open>Properties of the specification\<close>

text \<open>
  C1, as the specification states it, fails: the response is built from the engine's
  envelope, not from the stripped items. For the sample submissions, on both routes, the
  member \<^verbatim>\<open>rankings\<close> of the response still has the record with its \<^verbatim>\<open>resume\<close>
  reference, and so differs from the normalized items.
\<close>

theorem response_rankings_counterexample:
  "fst (submit stub_env alice (Upload sample_upload) sample_world) =
     Res 200 (Envelope sample_response) \<and>
   cleanRankings sample_envelope = Inr sample_clean \<and>
   response_rankings (fst (submit stub_env alice (Upload sample_upload) sample_world)) \<noteq>
     Some (JArr sample_clean) \<and>
   fst (submit stub_env alice (Stored sample_stored) sample_world) =
     Res 200 (Envelope sample_response) \<and>
   response_rankings (fst (submit stub_env alice (Stored sample_stored) sample_world)) \<noteq>
     Some (JArr sample_clean)"
proof -
  have up: "fst (submit stub_env alice (Upload sample_upload) sample_world) =
              Res 200 (Envelope sample_response)"
    by (simp add: upload_sample_fst)
  have st: "fst (submit stub_env alice (Stored sample_stored) sample_world) =
              Res 200 (Envelope sample_response)"
    by (simp add: stored_sample_fst)
  have clean: "cleanRankings sample_envelope = Inr sample_clean"
    by (simp add: cleanRankings_def sample_envelope_def sample_clean_def get_prop_def
        strip_resume_def AList.delete_eq)
  have differ: "response_rankings (Res 200 (Envelope sample_response)) \<noteq> Some (JArr sample_clean)"
    by (simp add: response_rankings_def sample_response_def sample_clean_def get_prop_def)
  from up st clean differ show ?thesis by simp
qed

text \<open>
  C1, amended. A submission that succeeds on either route answers with the engine's
  decoded envelope under a leading \<^verbatim>\<open>resultId\<close>: every member of the envelope other
  than \<^verbatim>\<open>resultId\<close>, the array \<^verbatim>\<open>rankings\<close> included, reads in the response as it reads
  in the envelope, each record keeping its \<^verbatim>\<open>resume\<close> reference, and \<^verbatim>\<open>resultId\<close> is
  the new session's identifier unless the envelope has a member of that name, which then
  takes its place. The normalized items (no \<^verbatim>\<open>resume\<close> member, every other member as
  the engine gave it) are what is handed to the session collection, which appends one
  session holding their cast.
\<close>

theorem submit_answers_with_envelope:
  assumes "submit E uid sub w = (Res st (Envelope j), w')"
    and "ml_calls w' = ml_calls w @ [form]"
  shows "\<exists>r data clean saved.
           fetch E form = Some r \<and> res_json r = Some data \<and>
           j = JObj (spread [(''resultId'', JStr (hex (new_id E)))] (own_props data)) \<and>
           (\<forall>k. k \<noteq> ''resultId'' \<longrightarrow>
              get_prop (own_props j) k = get_prop (own_props data) k) \<and>
           get_prop (own_props j) ''resultId'' =
             (case get_prop (own_props data) ''resultId'' of
                None \<Rightarrow> Some (JStr (hex (new_id E)))
              | Some v \<Rightarrow> Some v) \<and>
           cleanRankings data = Inr clean \<and>
           (\<forall>c \<in> set clean. get_prop (own_props c) ''resume'' = None) \<and>
           (\<forall>kvs xs. data = JObj kvs \<and> get_prop kvs ''rankings'' = Some (JArr xs) \<longrightarrow>
              length clean = length xs \<and>
              (\<forall>n < length xs. \<forall>k. k \<noteq> ''resume'' \<longrightarrow>
                 get_prop (own_props (clean ! n)) k = get_prop (own_props (xs ! n)) k)) \<and>
           castRankings E clean = Some (rankings saved) \<and>
           sessions w' = sessions w @ [saved]"
proof -
  have "\<exists>r data clean given jd saved.
          fetch E form = Some r \<and> res_json r = Some data \<and> cleanRankings data = Inr clean \<and>
          RankResult_create E uid jd clean given (sessions w) = Inr (saved, sessions w') \<and>
          j = result_body saved data"
  proof (cases sub)
    case (Upload req)
    with assms(1) have "upload E uid req w = (Res st (Envelope j), w')" by simp
    then show ?thesis using assms(2) by (elim upload_success) auto
  next
    case (Stored req)
    with assms(1) have "stored E uid req w = (Res st (Envelope j), w')" by simp
    then show ?thesis using assms(2) by (elim stored_success) auto
  qed
  then obtain r data clean given jd saved where
    r: "fetch E form = Some r" "res_json r = Some data" and clean: "cleanRankings data = Inr clean"
    and created: "RankResult_create E uid jd clean given (sessions w) = Inr (saved, sessions w')"
    and j: "j = result_body saved data" by blast
  note c = RankResult_create_Inr [OF created]
  from j c(2) have shape:
    "j = JObj (spread [(''resultId'', JStr (hex (new_id E)))] (own_props data))"
    by (simp add: result_body_def)
  have same: "\<forall>k. k \<noteq> ''resultId'' \<longrightarrow> get_prop (own_props j) k = get_prop (own_props data) k"
    by (simp add: j get_prop_result_body)
  have ident: "get_prop (own_props j) ''resultId'' =
             (case get_prop (own_props data) ''resultId'' of
                None \<Rightarrow> Some (JStr (hex (new_id E)))
              | Some v \<Rightarrow> Some v)"
    using c(2) by (simp add: j get_prop_result_body_id cong: option.case_cong)
  have items: "\<forall>kvs xs. data = JObj kvs \<and> get_prop kvs ''rankings'' = Some (JArr xs) \<longrightarrow>
              length clean = length xs \<and>
              (\<forall>n < length xs. \<forall>k. k \<noteq> ''resume'' \<longrightarrow>
                 get_prop (own_props (clean ! n)) k = get_prop (own_props (xs ! n)) k)"
    using cleanRankings_items(2) [OF clean] by blast
  from r shape same ident clean cleanRankings_items(1) [OF clean] items c(5) c(1)
  show ?thesis by blast
qed

theorem submit_answers_with_envelope_witness:
  "\<exists>saved. sessions (snd (submit stub_env alice (Stored sample_stored) sample_world)) =
             sessions sample_world @ [saved] \<and>
           castRankings stub_env sample_clean = Some (rankings saved) \<and>
           get_prop (own_props sample_response) ''rankings'' =
             get_prop (own_props sample_envelope) ''rankings''"
proof -
  let ?w' = "snd (submit stub_env alice (Stored sample_stored) sample_world)"
  let ?form = "RankStored ''Senior backend engineer'' 20"
  have run: "submit stub_env alice (Stored sample_stored) sample_world =
               (Res 200 (Envelope sample_response), ?w')"
    by (simp add: prod_eq_iff stored_sample_fst)
  have log: "ml_calls ?w' = ml_calls sample_world @ [?form]"
    by (simp add: run_defs stub_defs)
  have answer: "fetch stub_env ?form =
                  Some \<lparr>res_status = 200, res_text = [], res_json = Some sample_envelope\<rparr>"
    by (simp add: stub_env_def)
  have cleaned: "cleanRankings sample_envelope = Inr sample_clean"
    by (simp add: cleanRankings_def sample_envelope_def sample_clean_def get_prop_def
        strip_resume_def AList.delete_eq)
  from submit_answers_with_envelope [OF run log] show ?thesis
  proof (elim exE conjE)
    fix r data clean saved
    assume f: "fetch stub_env ?form = Some r" and d: "res_json r = Some data"
      and same: "\<forall>k. k \<noteq> ''resultId'' \<longrightarrow>
                   get_prop (own_props sample_response) k = get_prop (own_props data) k"
      and c: "cleanRankings data = Inr clean"
      and cast: "castRankings stub_env clean = Some (rankings saved)"
      and app: "sessions ?w' = sessions sample_world @ [saved]"
    from f answer have "r = \<lparr>res_status = 200, res_text = [], res_json = Some sample_envelope\<rparr>"
      by simp
    with d have data: "data = sample_envelope" by simp
    with c cleaned have clean: "clean = sample_clean" by simp
    from same have "get_prop (own_props sample_response) ''rankings'' =
                      get_prop (own_props data) ''rankings''" by simp
    with data app cast clean show ?thesis by (intro exI [of _ saved]) simp
  qed
qed

text \<open>
  C2. On either submission path, when the call to the scoring engine fails (the
  connection fails, the status is not a success, or the body does not decode), the
  handler hands the failure to the error middleware, which answers with a status
  outside 200 to 299, and the session collection is as it was before the request.
  The request is known to have reached the engine by the form it left in the call log.
\<close>

theorem engine_failure_creates_no_session:
  assumes "submit E uid sub w = (out, w')"
    and "ml_calls w' = ml_calls w @ [form]"
    and "engine_failed E form"
  shows "sessions w' = sessions w \<and>
         out = Next (case fetch E form of
                       None \<Rightarrow> FetchError
                     | Some r \<Rightarrow>
                         if \<not> ok r
                         then Thrown (res_text r)
                                (case sub of Upload u \<Rightarrow> Some (res_status r) | Stored s \<Rightarrow> None)
                         else InvalidJson) \<and>
         (\<exists>st b. delivered out = Res st b \<and> (st < 200 \<or> 299 < st))"
proof (cases sub)
  case (Upload req)
  with assms(1) have up: "upload E uid req w = (out, w')" by simp
  from upload_calls [OF up assms(2)] obtain jd where
    jd: "up_jd req = Some jd" "jd \<noteq> []" "up_files req \<noteq> []"
    and form: "form = upload_form jd (up_weights req) (up_files req)" by blast
  from assms(3) form have "engine_failed E (upload_form jd (up_weights req) (up_files req))"
    by simp
  from upload_try_failed [OF this, of uid w] up jd form
  have "sessions w' = sessions w" and
    out: "out = Next (case fetch E form of
                       None \<Rightarrow> FetchError
                     | Some r \<Rightarrow> if \<not> ok r then Thrown (res_text r) (Some (res_status r))
                                 else InvalidJson)"
    by (auto simp: upload_def Let_def)
  moreover from out have "\<exists>st b. delivered out = Res st b \<and> (st < 200 \<or> 299 < st)"
    by (auto simp: ok_def split: option.splits)
  ultimately show ?thesis using Upload by (simp split: option.splits)
next
  case (Stored req)
  with assms(1) have st: "stored E uid req w = (out, w')" by simp
  from stored_calls [OF st assms(2)] obtain jd where
    jd: "st_jd req = Some jd" "jd \<noteq> []"
    and form: "form = RankStored jd (case st_top_k req of None \<Rightarrow> 20 | Some k \<Rightarrow> k)" by blast
  from assms(3) form
  have "engine_failed E (RankStored jd (case st_top_k req of None \<Rightarrow> 20 | Some k \<Rightarrow> k))"
    by simp
  from stored_try_failed [OF this, of uid w] st jd form
  have "sessions w' = sessions w" and
    out: "out = Next (case fetch E form of
                       None \<Rightarrow> FetchError
                     | Some r \<Rightarrow> if \<not> ok r then Thrown (res_text r) None else InvalidJson)"
    by (auto simp: stored_def Let_def)
  moreover from out have "\<exists>st b. delivered out = Res st b \<and> (st < 200 \<or> 299 < st)"
    by (auto split: option.splits)
  ultimately show ?thesis using Stored by (simp split: option.splits)
qed

theorem engine_failure_creates_no_session_witness:
  "engine_failed failing_env
     (upload_form ''Senior backend engineer, 5+ years Go, Kubernetes''
        (Some full_weights_text) [sample_file]) \<and>
   sessions (snd (submit failing_env alice (Upload sample_upload) sample_world)) = [] \<and>
   fst (submit failing_env alice (Upload sample_upload) sample_world) =
     Next (Thrown ''engine overloaded'' (Some 503))"
proof -
  let ?form = "upload_form ''Senior backend engineer, 5+ years Go, Kubernetes''
                 (Some full_weights_text) [sample_file]"
  let ?run = "submit failing_env alice (Upload sample_upload) sample_world"
  have run: "?run = (fst ?run, snd ?run)" by simp
  have log: "ml_calls (snd ?run) = ml_calls sample_world @ [?form]"
    by (simp add: run_defs stub_defs)
  have failed: "engine_failed failing_env ?form"
    by (simp add: engine_failed_def failing_env_def stub_env_def ok_def)
  have "fetch failing_env ?form =
          Some \<lparr>res_status = 503, res_text = ''engine overloaded'', res_json = None\<rparr>"
    by (simp add: failing_env_def stub_env_def)
  with failed engine_failure_creates_no_session [OF run log failed] show ?thesis
    by (simp add: ok_def sample_world_def)
qed

text \<open>
  C3. Whatever the upload handler answers (a validation failure, an engine failure, a
  persistence failure or a success), afterwards the temporary directory holds what it
  held before minus every file of the request whose unlink did not fail; so each file
  of the request whose unlink succeeds is gone. Which unlinks fail changes neither the
  response nor the session collection.
\<close>

theorem upload_removes_tmp_files:
  "tmp_files (snd (upload E uid req w)) =
     tmp_files w - {p \<in> path ` set (up_files req). \<not> unlink_fails E p} \<and>
   (\<forall>f \<in> set (up_files req).
      \<not> unlink_fails E (path f) \<longrightarrow> path f \<notin> tmp_files (snd (upload E uid req w))) \<and>
   fst (upload (E\<lparr>unlink_fails := g\<rparr>) uid req w) = fst (upload E uid req w) \<and>
   sessions (snd (upload (E\<lparr>unlink_fails := g\<rparr>) uid req w)) =
     sessions (snd (upload E uid req w))"
  using upload_unlink_fails [where E = E and g = g and uid = uid and req = req and w = w]
  by (simp add: tmp_files_upload)

theorem upload_removes_tmp_files_witness:
  "sample_file \<in> set (up_files sample_upload) \<and>
   \<not> unlink_fails stub_env (path sample_file) \<and>
   path sample_file \<notin> tmp_files (snd (upload stub_env alice sample_upload sample_world)) \<and>
   tmp_files (snd (upload stub_env alice sample_upload sample_world)) = {''tmp_rank/77c1''}"
proof -
  have mem: "sample_file \<in> set (up_files sample_upload)"
    by (simp add: sample_upload_def)
  have succeeds: "\<not> unlink_fails stub_env (path sample_file)"
    by (simp add: stub_env_def)
  note inst = upload_removes_tmp_files
    [where E = stub_env and uid = alice and req = sample_upload and w = sample_world]
  from inst mem succeeds
  have gone: "path sample_file \<notin> tmp_files (snd (upload stub_env alice sample_upload sample_world))"
    by blast
  from inst have "tmp_files (snd (upload stub_env alice sample_upload sample_world)) =
     tmp_files sample_world -
       {p \<in> path ` set (up_files sample_upload). \<not> unlink_fails stub_env p}"
    by blast
  then have "tmp_files (snd (upload stub_env alice sample_upload sample_world)) =
     {''tmp_rank/77c1''}"
    by (auto simp: sample_world_def sample_upload_def sample_file_def stub_env_def)
  with mem succeeds gone show ?thesis by blast
qed

text \<open>
  C4. When the identifier names a session of another owner, the detail route answers
  404 with the message \<^verbatim>\<open>Not found.\<close>, exactly what it answers in any collection where
  no session has that identifier; more generally the answer depends only on the
  requester's own sessions.
\<close>

theorem history_id_other_owner:
  assumes "castObjectId E ident = Some i" and "\<not> db_down E"
    and "s \<in> set (sessions w)" and "sid s = i" and "owner s \<noteq> uid"
    and "distinct (map sid (sessions w))"
  shows "fst (history_id E uid ident w) = Res 404 (ErrorMsg ''Not found.'') \<and>
         (\<forall>w0. i \<notin> sid ` set (sessions w0) \<longrightarrow>
            fst (history_id E uid ident w0) = fst (history_id E uid ident w)) \<and>
         fst (history_id E uid ident w) =
           fst (history_id E uid ident (w\<lparr>sessions := filter (\<lambda>s. owner s = uid) (sessions w)\<rparr>))"
proof -
  from assms(6) have inj: "inj_on sid (set (sessions w))"
    by (simp add: distinct_map)
  have none: "find (\<lambda>s. sid s = i \<and> owner s = uid) (sessions w) = None"
  proof -
    have "\<not> (sid s' = i \<and> owner s' = uid)" if "s' \<in> set (sessions w)" for s'
    proof
      assume a: "sid s' = i \<and> owner s' = uid"
      with assms(4) have "sid s' = sid s" by simp
      with inj that assms(3) have "s' = s" by (auto dest: inj_onD)
      with a assms(5) show False by simp
    qed
    then show ?thesis by (auto simp: find_None_iff)
  qed
  with assms(1,2) have here: "fst (history_id E uid ident w) = Res 404 (ErrorMsg ''Not found.'')"
    by (simp add: history_id_run)
  have absent: "fst (history_id E uid ident w0) = Res 404 (ErrorMsg ''Not found.'')"
    if "i \<notin> sid ` set (sessions w0)" for w0
  proof -
    from that have "find (\<lambda>s. sid s = i \<and> owner s = uid) (sessions w0) = None"
      by (auto simp: find_None_iff)
    with assms(1,2) show ?thesis by (simp add: history_id_run)
  qed
  have "fst (history_id E uid ident w) =
          fst (history_id E uid ident (w\<lparr>sessions := filter (\<lambda>s. owner s = uid) (sessions w)\<rparr>))"
    by (simp add: history_id_run find_owner_filter cong: option.case_cong if_cong)
  with here absent show ?thesis by simp
qed

theorem history_id_other_owner_witness:
  "fst (history_id stub_env alice ''65f0c0ffee0123456789abcd'' bobs_world) =
     Res 404 (ErrorMsg ''Not found.'') \<and>
   fst (history_id stub_env alice ''65f0c0ffee0123456789abcd'' sample_world) =
     fst (history_id stub_env alice ''65f0c0ffee0123456789abcd'' bobs_world)"
proof -
  let ?i = "ObjectId ''65f0c0ffee0123456789abcd''"
  have cast: "castObjectId stub_env ''65f0c0ffee0123456789abcd'' = Some ?i"
    by (simp add: stub_env_def stub_castObjectId_def)
  have up: "\<not> db_down stub_env" by (simp add: stub_env_def)
  have mem: "bobs_session \<in> set (sessions bobs_world)" by (simp add: bobs_world_def)
  have ident: "sid bobs_session = ?i" by (simp add: bobs_session_def)
  have other: "owner bobs_session \<noteq> alice" by (simp add: bobs_session_def alice_def bob_def)
  have dist: "distinct (map sid (sessions bobs_world))" by (simp add: bobs_world_def)
  have absent: "?i \<notin> sid ` set (sessions sample_world)" by (simp add: sample_world_def)
  from history_id_other_owner [OF cast up mem ident other dist] absent
  show ?thesis by blast
qed

text \<open>
  C5. An upload whose job description is missing or empty, or that carries no file, is
  answered with status 400 and a message; no form is sent to the scoring engine and the
  session collection is unchanged.
\<close>

theorem upload_invalid_input:
  assumes "\<not> present (up_jd req) \<or> up_files req = []"
  shows "(\<exists>m. fst (upload E uid req w) = Res 400 (ErrorMsg m)) \<and>
         ml_calls (snd (upload E uid req w)) = ml_calls w \<and>
         sessions (snd (upload E uid req w)) = sessions w"
proof (cases "present (up_jd req)")
  case False
  then show ?thesis
    by (cases "up_jd req") (simp_all add: upload_def Let_def)
next
  case True
  with assms have "up_files req = []" by simp
  with True show ?thesis
    by (cases "up_jd req") (simp_all add: upload_def Let_def)
qed

theorem upload_invalid_input_witness:
  "fst (upload stub_env alice empty_upload sample_world) =
     Res 400 (ErrorMsg ''At least one resume file is required.'') \<and>
   ml_calls (snd (upload stub_env alice empty_upload sample_world)) = [] \<and>
   sessions (snd (upload stub_env alice empty_upload sample_world)) = []"
proof -
  have h: "\<not> present (up_jd empty_upload) \<or> up_files empty_upload = []"
    by (simp add: empty_upload_def)
  have "fst (upload stub_env alice empty_upload sample_world) =
     Res 400 (ErrorMsg ''At least one resume file is required.'')"
    by (simp add: upload_def empty_upload_def sample_upload_def)
  then show ?thesis
    using upload_invalid_input [OF h, of stub_env alice sample_world]
    by (simp add: sample_world_def)
qed

text \<open>
  C6, as the specification states it, fails on the sign: a weights text whose
  \<^verbatim>\<open>semantic\<close> member is \<^verbatim>\<open>-1\<close> is persisted with that negative weight.
\<close>

theorem negative_weight_counterexample:
  "persisted_weights (snd (upload stub_env alice negative_upload sample_world)) =
     [\<lparr>semantic = Some (- 1), skill = Some 0.25, experience = Some 0.15,
       education = Some 0.1\<rparr>] \<and>
   \<not> nonneg_weights \<lparr>semantic = Some (- 1), skill = Some 0.25, experience = Some 0.15,
                      education = Some 0.1\<rparr>"
  by (simp add: persisted_weights_def nonneg_weights_def nonneg_weight_def run_defs stub_defs)

text \<open>
  C6, amended. An upload that succeeds appends one session. When no weights text was
  given (the field is missing or empty) its weights are the four defaults 0.5, 0.25,
  0.15 and 0.1. When the text parses to an object, each of the four named paths holds
  the default if the object has no such member, and otherwise the Number cast of the
  member's value, with no check of its sign or range.
\<close>

theorem upload_persists_cast_weights:
  assumes "upload E uid req w = (Res st (Envelope j), w')"
  shows "\<exists>saved. sessions w' = sessions w @ [saved] \<and>
           (\<not> present (up_weights req) \<longrightarrow>
              weights saved =
                \<lparr>semantic = Some 0.5, skill = Some 0.25, experience = Some 0.15,
                 education = Some 0.1\<rparr>) \<and>
           (\<forall>t kvs. up_weights req = Some t \<and> t \<noteq> [] \<and> JSON_parse E t = Some (JObj kvs) \<longrightarrow>
              (\<forall>(name, dflt, sel) \<in> set weight_fields.
                 case get_prop kvs name of
                   None \<Rightarrow> sel (weights saved) = dflt
                 | Some v \<Rightarrow> castNumber E v = Some (sel (weights saved))))"
proof -
  from assms obtain jd clean given saved where
    parsed: "parse_weights E (up_weights req) = Inr given"
    and created: "RankResult_create E uid jd clean given (sessions w) = Inr (saved, sessions w')"
    by (elim upload_success)
  note c = RankResult_create_Inr [OF created]
  have absent: "weights saved =
                \<lparr>semantic = Some 0.5, skill = Some 0.25, experience = Some 0.15,
                 education = Some 0.1\<rparr>" if "\<not> present (up_weights req)"
  proof -
    from parse_weights_absent [OF that, of E] parsed have "given = None" by simp
    with c(6) show ?thesis by (simp add: weights_of_def default_weights_def)
  qed
  have given: "\<forall>(name, dflt, sel) \<in> set weight_fields.
                 case get_prop kvs name of
                   None \<Rightarrow> sel (weights saved) = dflt
                 | Some v \<Rightarrow> castNumber E v = Some (sel (weights saved))"
    if "up_weights req = Some t" and "t \<noteq> []" and "JSON_parse E t = Some (JObj kvs)" for t kvs
  proof -
    from parse_weights_text [OF that(2,3)] that(1) parsed have "given = Some (JObj kvs)"
      by simp
    with c(6) have "weights_of E (Some (JObj kvs)) = Some (weights saved)" by simp
    from weights_of_JObj [OF this] show ?thesis
      by (simp add: weight_fields_def weight_path_Some)
  qed
  from c(1) absent given show ?thesis by blast
qed

theorem upload_persists_cast_weights_witness:
  "\<exists>saved. sessions (snd (upload stub_env alice negative_upload sample_world)) =
             sessions sample_world @ [saved] \<and>
           semantic (weights saved) = Some (- 1) \<and> skill (weights saved) = Some 0.25 \<and>
           experience (weights saved) = Some 0.15 \<and> education (weights saved) = Some 0.1"
proof -
  let ?kvs = "[(''semantic'', JNum (- 1))]"
  from upload_persists_cast_weights [OF upload_negative_run] obtain saved where
    app: "sessions (snd (upload stub_env alice negative_upload sample_world)) =
            sessions sample_world @ [saved]"
    and given: "\<forall>t kvs. up_weights negative_upload = Some t \<and> t \<noteq> [] \<and>
                  JSON_parse stub_env t = Some (JObj kvs) \<longrightarrow>
              (\<forall>(name, dflt, sel) \<in> set weight_fields.
                 case get_prop kvs name of
                   None \<Rightarrow> sel (weights saved) = dflt
                 | Some v \<Rightarrow> castNumber stub_env v = Some (sel (weights saved)))"
    by blast
  have "up_weights negative_upload = Some negative_weights_text \<and> negative_weights_text \<noteq> [] \<and>
        JSON_parse stub_env negative_weights_text = Some (JObj ?kvs)"
    by (simp add: negative_upload_def stub_env_def stub_parse_def)
       (simp add: negative_weights_text_def full_weights_text_def)
  with given have "\<forall>(name, dflt, sel) \<in> set weight_fields.
                 case get_prop ?kvs name of
                   None \<Rightarrow> sel (weights saved) = dflt
                 | Some v \<Rightarrow> castNumber stub_env v = Some (sel (weights saved))"
    by blast
  then have "semantic (weights saved) = Some (- 1) \<and> skill (weights saved) = Some 0.25 \<and>
           experience (weights saved) = Some 0.15 \<and> education (weights saved) = Some 0.1"
    by (simp add: weight_fields_def get_prop_def stub_env_def stub_castNumber_def)
  with app show ?thesis by (intro exI [of _ saved]) simp
qed

text \<open>
  C7. When an upload succeeds whose weights text parses to an object that gives all
  four weights as numbers, and the Number cast keeps these numbers, then a later detail
  request by the same owner for the new session's identifier returns that session with
  exactly the four supplied weights.
\<close>

theorem uploaded_weights_round_trip:
  assumes "upload E uid req w = (Res st (Envelope j), w')"
    and "up_weights req = Some t" and "t \<noteq> []"
    and "JSON_parse E t = Some (JObj kvs)"
    and "get_prop kvs ''semantic'' = Some (JNum a)"
    and "get_prop kvs ''skill'' = Some (JNum b)"
    and "get_prop kvs ''experience'' = Some (JNum c)"
    and "get_prop kvs ''education'' = Some (JNum d)"
    and "castNumber E (JNum a) = Some (Some a)" and "castNumber E (JNum b) = Some (Some b)"
    and "castNumber E (JNum c) = Some (Some c)" and "castNumber E (JNum d) = Some (Some d)"
    and "castObjectId E' ident = Some (new_id E)" and "\<not> db_down E'"
  shows "\<exists>s. history_id E' uid ident w' = (Res 200 (Document s), w') \<and>
             s \<in> set (sessions w') \<and> sid s = new_id E \<and>
             weights s =
               \<lparr>semantic = Some a, skill = Some b, experience = Some c, education = Some d\<rparr>"
proof -
  from assms(1) obtain jd clean given saved where
    parsed: "parse_weights E (up_weights req) = Inr given"
    and created: "RankResult_create E uid jd clean given (sessions w) = Inr (saved, sessions w')"
    by (elim upload_success)
  note cr = RankResult_create_Inr [OF created]
  from parse_weights_text [OF assms(3,4)] assms(2) parsed have "given = Some (JObj kvs)"
    by simp
  with cr(6) have "weights_of E (Some (JObj kvs)) = Some (weights saved)" by simp
  note paths = weights_of_JObj [OF this]
  from weight_path_Some [OF paths(1)] assms(5,9) have 1: "semantic (weights saved) = Some a"
    by simp
  from weight_path_Some [OF paths(2)] assms(6,10) have 2: "skill (weights saved) = Some b"
    by simp
  from weight_path_Some [OF paths(3)] assms(7,11) have 3: "experience (weights saved) = Some c"
    by simp
  from weight_path_Some [OF paths(4)] assms(8,12) have 4: "education (weights saved) = Some d"
    by simp
  from 1 2 3 4 have ws: "weights saved =
      \<lparr>semantic = Some a, skill = Some b, experience = Some c, education = Some d\<rparr>"
    by (cases "weights saved") simp
  from history_id_created [OF created assms(13,14)] cr(1) cr(2) ws show ?thesis by simp
qed

theorem uploaded_weights_round_trip_witness:
  "\<exists>s. history_id stub_env alice ''65f0c0ffee0123456789abcd''
          (snd (upload stub_env alice sample_upload sample_world)) =
          (Res 200 (Document s), snd (upload stub_env alice sample_upload sample_world)) \<and>
        weights s =
          \<lparr>semantic = Some 0.6, skill = Some 0.2, experience = Some 0.1, education = Some 0.1\<rparr>"
proof -
  let ?kvs = "[(''semantic'', JNum 0.6), (''skill'', JNum 0.2),
               (''experience'', JNum 0.1), (''education'', JNum 0.1)]"
  have w: "up_weights sample_upload = Some full_weights_text"
    by (simp add: sample_upload_def)
  have ne: "full_weights_text \<noteq> []" by (simp add: full_weights_text_def)
  have parse: "JSON_parse stub_env full_weights_text = Some (JObj ?kvs)"
    by (simp add: stub_env_def stub_parse_def)
  have p1: "get_prop ?kvs ''semantic'' = Some (JNum 0.6)" by (simp add: get_prop_def)
  have p2: "get_prop ?kvs ''skill'' = Some (JNum 0.2)" by (simp add: get_prop_def)
  have p3: "get_prop ?kvs ''experience'' = Some (JNum 0.1)" by (simp add: get_prop_def)
  have p4: "get_prop ?kvs ''education'' = Some (JNum 0.1)" by (simp add: get_prop_def)
  have c: "castNumber stub_env (JNum x) = Some (Some x)" for x
    by (simp add: stub_env_def stub_castNumber_def)
  from uploaded_weights_round_trip
    [OF upload_sample_run w ne parse p1 p2 p3 p4 c c c c stub_cast_new_id stub_db_up]
  obtain s where
    "history_id stub_env alice ''65f0c0ffee0123456789abcd''
          (snd (upload stub_env alice sample_upload sample_world)) =
          (Res 200 (Document s), snd (upload stub_env alice sample_upload sample_world))"
    and "weights s =
          \<lparr>semantic = Some 0.6, skill = Some 0.2, experience = Some 0.1, education = Some 0.1\<rparr>"
    by blast
  then show ?thesis by (intro exI [of _ s]) simp
qed

text \<open>
  C8. When the database answers, the list route returns at most 50 summaries, ordered
  by creation time from the newest; each is the summary of one of the requester's
  sessions with its identifier, job description and creation time, and each of its
  ranking items has no member beyond \<^verbatim>\<open>rank\<close>, \<^verbatim>\<open>filename\<close>, \<^verbatim>\<open>total_score\<close> and
  \<^verbatim>\<open>fit_category\<close>, with the stored values of these four. A session of the requester
  that is left out is no newer than any of the fifty listed.
\<close>

theorem history_newest_fifty:
  assumes "\<not> db_down E"
  shows "\<exists>rs. fst (history E uid w) = Res 200 (Summaries rs) \<and>
           length rs \<le> 50 \<and>
           sorted_wrt (\<lambda>a b. sum_createdAt b \<le> sum_createdAt a) rs \<and>
           (\<forall>r \<in> set rs. \<exists>s \<in> set (sessions w).
              owner s = uid \<and> sum_id r = sid s \<and>
              sum_jobDescription r = jobDescription s \<and> sum_createdAt r = createdAt s \<and>
              length (sum_rankings r) = length (rankings s) \<and>
              (\<forall>n < length (rankings s).
                 fst ` set (sum_rankings r ! n) \<subseteq>
                   {''rank'', ''filename'', ''total_score'', ''fit_category''} \<and>
                 (\<forall>k \<in> {''rank'', ''filename'', ''total_score'', ''fit_category''}.
                    get_prop (sum_rankings r ! n) k = get_prop (rankings s ! n) k))) \<and>
           (\<forall>s \<in> set (sessions w). owner s = uid \<longrightarrow>
              select_summary s \<in> set rs \<or>
              (length rs = 50 \<and> (\<forall>r \<in> set rs. createdAt s \<le> sum_createdAt r)))"
proof -
  define L where "L = rev (sort_key createdAt (filter (\<lambda>s. owner s = uid) (sessions w)))"
  define rs where "rs = map select_summary (take 50 L)"
  have run: "fst (history E uid w) = Res 200 (Summaries rs)"
    using assms by (simp add: history_def RankResult_find_def rs_def L_def)
  have len: "length rs \<le> 50" by (simp add: rs_def)
  have sortedL: "sorted_wrt (\<lambda>a b. createdAt b \<le> createdAt a) L"
    unfolding L_def by (rule newest_first)
  then have "sorted_wrt (\<lambda>a b. createdAt b \<le> createdAt a) (take 50 L)" by simp
  then have ordered: "sorted_wrt (\<lambda>a b. sum_createdAt b \<le> sum_createdAt a) rs"
    by (simp add: rs_def sorted_wrt_map select_summary_def)
  have setL: "set L = {s \<in> set (sessions w). owner s = uid}"
    by (auto simp: L_def)
  have each: "\<exists>s \<in> set (sessions w).
              owner s = uid \<and> sum_id r = sid s \<and>
              sum_jobDescription r = jobDescription s \<and> sum_createdAt r = createdAt s \<and>
              length (sum_rankings r) = length (rankings s) \<and>
              (\<forall>n < length (rankings s).
                 fst ` set (sum_rankings r ! n) \<subseteq>
                   {''rank'', ''filename'', ''total_score'', ''fit_category''} \<and>
                 (\<forall>k \<in> {''rank'', ''filename'', ''total_score'', ''fit_category''}.
                    get_prop (sum_rankings r ! n) k = get_prop (rankings s ! n) k))"
    if "r \<in> set rs" for r
  proof -
    from that obtain s where s: "s \<in> set (take 50 L)" and r: "r = select_summary s"
      by (auto simp: rs_def)
    from s have "s \<in> set L" by (rule in_set_takeD)
    with setL have own: "s \<in> set (sessions w)" "owner s = uid" by auto
    have items: "fst ` set (sum_rankings r ! n) \<subseteq>
                   {''rank'', ''filename'', ''total_score'', ''fit_category''} \<and>
                 (\<forall>k \<in> {''rank'', ''filename'', ''total_score'', ''fit_category''}.
                    get_prop (sum_rankings r ! n) k = get_prop (rankings s ! n) k)"
      if "n < length (rankings s)" for n
    proof -
      from that have "sum_rankings r ! n = select_item (rankings s ! n)"
        by (simp add: r select_summary_def)
      moreover have "set selected_item_fields =
                       {''rank'', ''filename'', ''total_score'', ''fit_category''}"
        by (simp add: selected_item_fields_def)
      ultimately show ?thesis
        using keys_select_item [of "rankings s ! n"]
        by (simp add: get_prop_select_item)
    qed
    from own items show ?thesis
      by (intro bexI [of _ s]) (simp_all add: r select_summary_def)
  qed
  have rest: "select_summary s \<in> set rs \<or>
              (length rs = 50 \<and> (\<forall>r \<in> set rs. createdAt s \<le> sum_createdAt r))"
    if "s \<in> set (sessions w)" and "owner s = uid" for s
  proof -
    from that setL have "s \<in> set L" by simp
    from beyond_limit [OF sortedL this, of 50]
    show ?thesis by (auto simp: rs_def select_summary_def)
  qed
  from run len ordered each rest show ?thesis by blast
qed

theorem history_newest_fifty_witness:
  "\<not> db_down stub_env \<and>
   (\<exists>rs. fst (history stub_env bob bobs_two_world) = Res 200 (Summaries rs) \<and>
         length rs \<le> 50 \<and>
         map sum_createdAt rs = [1700000500, 1700000000] \<and>
         map sum_rankings rs =
           [[[(''filename'', JStr ''alice.pdf''), (''rank'', JNum 1),
              (''total_score'', JNum 0.87), (''fit_category'', JStr ''Strong Match'')]],
            [[(''filename'', JStr ''alice.pdf''), (''rank'', JNum 1),
              (''total_score'', JNum 0.87), (''fit_category'', JStr ''Strong Match'')]]])"
proof -
  have up: "\<not> db_down stub_env" by (simp add: stub_env_def)
  from history_newest_fifty [OF up, of bob bobs_two_world] obtain rs where
    rs: "fst (history stub_env bob bobs_two_world) = Res 200 (Summaries rs)"
    and len: "length rs \<le> 50" by blast
  have own: "filter (\<lambda>s. owner s = bob) (sessions bobs_two_world) =
               [bobs_session, bobs_later_session]"
    by (simp add: bobs_two_world_def bobs_session_def bobs_later_session_def)
  have times: "createdAt bobs_session = 1700000000" "createdAt bobs_later_session = 1700000500"
    by (simp_all add: bobs_session_def bobs_later_session_def)
  have "fst (history stub_env bob bobs_two_world) =
          Res 200 (Summaries [select_summary bobs_later_session, select_summary bobs_session])"
    by (simp add: history_def RankResult_find_def own times stub_env_def)
  with rs have "rs = [select_summary bobs_later_session, select_summary bobs_session]"
    by simp
  moreover have "sum_rankings (select_summary bobs_session) =
      [[(''filename'', JStr ''alice.pdf''), (''rank'', JNum 1),
        (''total_score'', JNum 0.87), (''fit_category'', JStr ''Strong Match'')]]"
    by (simp add: select_summary_def select_item_def selected_item_fields_def
        bobs_session_def sample_clean_def own_props_def)
  moreover have "sum_rankings (select_summary bobs_later_session) =
      [[(''filename'', JStr ''alice.pdf''), (''rank'', JNum 1),
        (''total_score'', JNum 0.87), (''fit_category'', JStr ''Strong Match'')]]"
    by (simp add: select_summary_def select_item_def selected_item_fields_def
        bobs_session_def bobs_later_session_def sample_clean_def own_props_def)
  ultimately have shape: "map sum_createdAt rs = [1700000500, 1700000000] \<and>
         map sum_rankings rs =
           [[[(''filename'', JStr ''alice.pdf''), (''rank'', JNum 1),
              (''total_score'', JNum 0.87), (''fit_category'', JStr ''Strong Match'')]],
            [[(''filename'', JStr ''alice.pdf''), (''rank'', JNum 1),
              (''total_score'', JNum 0.87), (''fit_category'', JStr ''Strong Match'')]]]"
    by (simp add: select_summary_def times)
  show ?thesis
  proof (intro conjI exI)
    show "\<not> db_down stub_env" by (rule up)
    show "fst (history stub_env bob bobs_two_world) = Res 200 (Summaries rs)" by (rule rs)
    show "length rs \<le> 50" by (rule len)
    show "map sum_createdAt rs = [1700000500, 1700000000]" using shape by (rule conjunct1)
    show "map sum_rankings rs =
           [[[(''filename'', JStr ''alice.pdf''), (''rank'', JNum 1),
              (''total_score'', JNum 0.87), (''fit_category'', JStr ''Strong Match'')]],
            [[(''filename'', JStr ''alice.pdf''), (''rank'', JNum 1),
              (''total_score'', JNum 0.87), (''fit_category'', JStr ''Strong Match'')]]]"
      using shape by (rule conjunct2)
  qed
qed

text \<open>
  C9. When a stored ranking succeeds, the one session it appends has the schema's
  default weights 0.5, 0.25, 0.15 and 0.1, and a later detail request by the same owner
  for its identifier returns that session with these weights.
\<close>

theorem stored_session_has_default_weights:
  assumes "stored E uid req w = (Res st (Envelope j), w')"
    and "castObjectId E' ident = Some (new_id E)" and "\<not> db_down E'"
  shows "\<exists>s. history_id E' uid ident w' = (Res 200 (Document s), w') \<and>
             sessions w' = sessions w @ [s] \<and> sid s = new_id E \<and>
             weights s =
               \<lparr>semantic = Some 0.5, skill = Some 0.25, experience = Some 0.15,
                education = Some 0.1\<rparr>"
proof -
  from assms(1) obtain jd clean saved where
    created: "RankResult_create E uid jd clean None (sessions w) = Inr (saved, sessions w')"
    by (elim stored_success)
  note cr = RankResult_create_Inr [OF created]
  from cr(6) have "weights saved =
      \<lparr>semantic = Some 0.5, skill = Some 0.25, experience = Some 0.15, education = Some 0.1\<rparr>"
    by (simp add: weights_of_def default_weights_def)
  with history_id_created [OF created assms(2,3)] cr(1) cr(2) show ?thesis by simp
qed

theorem stored_session_has_default_weights_witness:
  "\<exists>s. history_id stub_env alice ''65f0c0ffee0123456789abcd''
          (snd (stored stub_env alice sample_stored sample_world)) =
          (Res 200 (Document s), snd (stored stub_env alice sample_stored sample_world)) \<and>
        weights s =
          \<lparr>semantic = Some 0.5, skill = Some 0.25, experience = Some 0.15,
           education = Some 0.1\<rparr>"
proof -
  from stored_session_has_default_weights [OF stored_sample_run stub_cast_new_id stub_db_up]
  obtain s where
    "history_id stub_env alice ''65f0c0ffee0123456789abcd''
          (snd (stored stub_env alice sample_stored sample_world)) =
          (Res 200 (Document s), snd (stored stub_env alice sample_stored sample_world))"
    and "weights s =
          \<lparr>semantic = Some 0.5, skill = Some 0.25, experience = Some 0.15,
           education = Some 0.1\<rparr>"
    by blast
  then show ?thesis by (intro exI [of _ s]) simp
qed

text \<open>
  C10. When the identifier does not cast to an ObjectId, the lookup throws a cast error
  that the handler passes to the error middleware, which answers 500; the 404 answer is
  given exactly when the identifier casts, the database answers, and no session has
  that identifier together with the requester as owner.
\<close>

theorem history_id_malformed:
  "(castObjectId E ident = None \<longrightarrow>
      fst (history_id E uid ident w) = Next CastError \<and>
      delivered (fst (history_id E uid ident w)) = Res 500 (RuntimeMsg CastError)) \<and>
   (fst (history_id E uid ident w) = Res 404 (ErrorMsg ''Not found.'') \<longleftrightarrow>
      (\<exists>i. castObjectId E ident = Some i \<and> \<not> db_down E \<and>
           (\<forall>s \<in> set (sessions w). \<not> (sid s = i \<and> owner s = uid))))"
  by (auto simp: history_id_run find_None_iff dest: find_Some_mem split: option.splits)

theorem history_id_malformed_witness:
  "castObjectId stub_env ''xyz'' = None \<and>
   fst (history_id stub_env bob ''xyz'' bobs_world) = Next CastError \<and>
   delivered (fst (history_id stub_env bob ''xyz'' bobs_world)) = Res 500 (RuntimeMsg CastError)"
proof -
  have bad: "castObjectId stub_env ''xyz'' = None"
    by (simp add: stub_env_def stub_castObjectId_def)
  with history_id_malformed [where E = stub_env and ident = "''xyz''" and uid = bob and w = bobs_world]
  show ?thesis by blast
qed


end
